theory Spec2Isabelle
  imports Complex_Main
begin

chapter \<open>The k-means clustering engine\<close>

text \<open>
  The file \<^verbatim>\<open>src/parallel-kmeans/omp_new_kmeans.c\<close> holds two versions of
  \<^verbatim>\<open>omp_kmeans\<close>: the base version (lines 1-296, with \<^verbatim>\<open>find_nearest_cluster\<close>
  and the two accumulation disciplines selected by \<^verbatim>\<open>is_perform_atomic\<close>) and the
  improved version (lines 298-441). Both are embedded below.

  Modelling conventions.
  \<^item> A C \<^verbatim>\<open>float\<close> is a \<^typ>\<open>real\<close>. The arithmetic on coordinates (distances,
    sums, means) is exact: rounding, infinities and NaN are not modelled there. The
    counter \<^verbatim>\<open>delta\<close>, whose value decides whether the loop goes on, is computed as the
    code computes it, every result rounded to the nearest float (\<open>fl32\<close> below). An
    \<^verbatim>\<open>int\<close> that holds a value is an \<^typ>\<open>int\<close>; an
    \<^verbatim>\<open>int\<close> that is a size or a loop index is a \<^typ>\<open>nat\<close> (the loops run from a
    non-negative start upwards and never overflow: counts are bounded by
    \<^verbatim>\<open>numObjs\<close>, the pass counter by 501).
  \<^item> \<^verbatim>\<open>float **\<close> arrays are lists of rows. Where the code reaches an array through
    row pointers into one flat block (\<^verbatim>\<open>newClusters\<close> of the base version, whose two
    branches index it in different orders) the flat block is a list and the index
    arithmetic is written out.
  \<^item> The OpenMP loops are run in index order. With exact arithmetic the atomic adds and
    the per-thread buffers commute, so the order of the iterations does not change any
    value; each \<^verbatim>\<open>membership[i]\<close> is written by the one iteration \<open>i\<close>. The partial
    sums of \<^verbatim>\<open>reduction(+:delta)\<close> are whole numbers up to \<^verbatim>\<open>numObjs\<close>; they are exact
    in float, and so independent of the order, as long as \<^verbatim>\<open>numObjs\<close> is at most
    \<open>2\<^sup>2\<^sup>4\<close> (lemma \<open>fl32_nat\<close>). For more objects the value of \<^verbatim>\<open>delta\<close> in the
    model is that of the run on one thread.
  \<^item> Reads and writes of the improved version are in range for inputs of the shape its
    header comments give (\<open>wf_input\<close> below). Outside that shape the C program has
    undefined behaviour; the statements about the contents of the arrays assume the
    shape.
\<close>

section \<open>Rounding to float\<close>

text \<open>
  The nearest integer, ties to the even one: the rounding of the significand.
\<close>

definition round_even :: "real \<Rightarrow> int" where
  "round_even x =
     (let f = \<lfloor>x\<rfloor>; r = x - real_of_int f
      in if r < 1 / 2 then f else if 1 / 2 < r then f + 1 else if even f then f else f + 1)"

text \<open>
  The unit in the last place of the floats around a magnitude \<open>a\<close>: the least power of
  two \<open>u\<close>, not below \<open>2\<^sup>-\<^sup>1\<^sup>4\<^sup>9\<close> (the spacing of the subnormal numbers), with
  \<open>a < 2\<^sup>2\<^sup>4 u\<close>. The search starts at \<open>u = 2\<^sup>-\<^sup>2\<^sup>4\<close>, the unit of the floats in
  \<open>[1/2, 1)\<close>, and goes down at most 125 times or up at most 128 times (to
  \<open>2\<^sup>1\<^sup>0\<^sup>4\<close>, the unit of the largest floats).
\<close>

primrec ulp_down :: "nat \<Rightarrow> real \<Rightarrow> real \<Rightarrow> real" where
  "ulp_down 0 u a = u"
| "ulp_down (Suc fuel) u a = (if a < u * 8388608 then ulp_down fuel (u / 2) a else u)"

primrec ulp_up :: "nat \<Rightarrow> real \<Rightarrow> real \<Rightarrow> real" where
  "ulp_up 0 u a = u"
| "ulp_up (Suc fuel) u a = (if a < u * 16777216 then u else ulp_up fuel (2 * u) a)"

definition ulp32 :: "real \<Rightarrow> real" where
  "ulp32 a = (if a < 1 then ulp_down 125 (1 / 16777216) a else ulp_up 128 (1 / 16777216) a)"

text \<open>
  The float (IEEE 754 binary32, 24 bits of significand) nearest to \<open>x\<close>, ties to the even
  significand: what a float operation with the exact result \<open>x\<close> stores. It is the
  code's value for \<open>\<bar>x\<bar> < 2\<^sup>1\<^sup>2\<^sup>8 - 2\<^sup>1\<^sup>0\<^sup>3\<close>; above, the C float is infinite,
  which is not modelled (\<^verbatim>\<open>delta\<close> stays between 0 and \<open>2\<^sup>2\<^sup>4\<close>).
\<close>

definition fl32 :: "real \<Rightarrow> real" where
  "fl32 x = (let u = ulp32 \<bar>x\<bar> in real_of_int (round_even (x / u)) * u)"

section \<open>The improved version (lines 298-441)\<close>

subsection \<open>State\<close>

record kstate =
  membership :: "int list"            \<comment> \<open>\<^verbatim>\<open>[numObjs]\<close>\<close>
  clusters :: "real list list"        \<comment> \<open>\<^verbatim>\<open>[numCoords][numClusters]\<close>\<close>
  newClusters :: "real list list"     \<comment> \<open>\<^verbatim>\<open>[numCoords][numClusters]\<close>\<close>
  newClusterSize :: "int list"        \<comment> \<open>\<^verbatim>\<open>[numClusters]\<close>\<close>
  delta :: real

text \<open>
  \<^verbatim>\<open>INT_MAX\<close> of \<^verbatim>\<open>limits.h\<close>. Assigned to the float \<^verbatim>\<open>min_dist\<close> it becomes
  \<open>2\<^sup>3\<^sup>1\<close>, the nearest float; the largest float below \<open>2\<^sup>3\<^sup>1\<close> is
  \<open>2\<^sup>3\<^sup>1 - 128\<close>, so for a float \<open>d\<close> the test \<^verbatim>\<open>d < min_dist\<close> is the same with
  either value. The model compares with \<^verbatim>\<open>INT_MAX\<close> itself.
\<close>

definition INT_MAX :: int where
  "INT_MAX = 2147483647"

subsection \<open>Nearest centroid, improved version (lines 378-400)\<close>

text \<open>One term \<^verbatim>\<open>(objects[i][k]-clusters[k][j]) * (objects[i][k]-clusters[k][j])\<close>.\<close>

definition sq_term :: "real list \<Rightarrow> real list list \<Rightarrow> nat \<Rightarrow> nat \<Rightarrow> real" where
  "sq_term object cl k j = (object ! k - cl ! k ! j) * (object ! k - cl ! k ! j)"

text \<open>Lines 385-387: the loop over \<open>j\<close> for \<open>k = 0\<close> fills \<^verbatim>\<open>distArray\<close>.\<close>

definition dist_first :: "nat \<Rightarrow> real list \<Rightarrow> real list list \<Rightarrow> real list" where
  "dist_first numClusters object cl = map (\<lambda>j. sq_term object cl 0 j) [0..<numClusters]"

text \<open>Lines 390-392: for one \<open>k\<close>, every \<^verbatim>\<open>distArray[j]\<close> grows by its term.\<close>

definition dist_add :: "nat \<Rightarrow> real list \<Rightarrow> real list list \<Rightarrow> real list \<Rightarrow> nat \<Rightarrow> real list" where
  "dist_add numClusters object cl distArray k =
     map (\<lambda>j. distArray ! j + sq_term object cl k j) [0..<numClusters]"

text \<open>Lines 385-393: \<^verbatim>\<open>distArray\<close> after the loops over \<open>k = 1 .. numCoords - 1\<close>.\<close>

definition dist_array :: "nat \<Rightarrow> nat \<Rightarrow> real list \<Rightarrow> real list list \<Rightarrow> real list" where
  "dist_array numClusters numCoords object cl =
     foldl (dist_add numClusters object cl) (dist_first numClusters object cl) [1..<numCoords]"

text \<open>
  Lines 381-382 and 395-400: the scan for the minimum. The pair is
  \<^verbatim>\<open>(index, min_dist)\<close>; it starts as \<^verbatim>\<open>(0, INT_MAX)\<close>.
\<close>

definition scan_step :: "real list \<Rightarrow> nat \<times> real \<Rightarrow> nat \<Rightarrow> nat \<times> real" where
  "scan_step distArray im j =
     (if distArray ! j < snd im then (j, distArray ! j) else im)"

definition scan_min :: "nat \<Rightarrow> real list \<Rightarrow> nat \<times> real" where
  "scan_min numClusters distArray =
     foldl (scan_step distArray) (0, real_of_int INT_MAX) [0..<numClusters]"

definition nearest_index :: "nat \<Rightarrow> nat \<Rightarrow> real list \<Rightarrow> real list list \<Rightarrow> nat" where
  "nearest_index numClusters numCoords object cl =
     fst (scan_min numClusters (dist_array numClusters numCoords object cl))"

subsection \<open>Assignment pass, improved version (lines 377-414)\<close>

text \<open>Lines 411-413: \<^verbatim>\<open>newClusters[j][index] += objects[i][j]\<close> for every \<open>j\<close>.\<close>

definition add_coord :: "real list \<Rightarrow> nat \<Rightarrow> real list list \<Rightarrow> nat \<Rightarrow> real list list" where
  "add_coord object index nc j = nc[j := (nc ! j)[index := nc ! j ! index + object ! j]]"

definition add_object :: "nat \<Rightarrow> real list \<Rightarrow> nat \<Rightarrow> real list list \<Rightarrow> real list list" where
  "add_object numCoords object index nc = foldl (add_coord object index) nc [0..<numCoords]"

text \<open>
  The body of the loop over the objects, for object \<open>i\<close>. Line 403,
  \<^verbatim>\<open>delta += 1.0\<close>, adds in double, where the sum is exact, and stores the float
  nearest to it.
\<close>

definition assign_object :: "nat \<Rightarrow> nat \<Rightarrow> real list list \<Rightarrow> kstate \<Rightarrow> nat \<Rightarrow> kstate" where
  "assign_object numClusters numCoords objects s i =
     (let index = nearest_index numClusters numCoords (objects ! i) (clusters s)
      in s\<lparr> delta := (if membership s ! i \<noteq> int index then fl32 (delta s + 1) else delta s),
            membership := (membership s)[i := int index],
            newClusterSize := (newClusterSize s)[index := newClusterSize s ! index + 1],
            newClusters := add_object numCoords (objects ! i) index (newClusters s) \<rparr>)"

definition assignment_pass :: "nat \<Rightarrow> nat \<Rightarrow> nat \<Rightarrow> real list list \<Rightarrow> kstate \<Rightarrow> kstate" where
  "assignment_pass numClusters numCoords numObjs objects s =
     foldl (assign_object numClusters numCoords objects) s [0..<numObjs]"

subsection \<open>Centroid update (lines 420-427)\<close>

text \<open>One step of the inner loop, for cluster \<open>i\<close> and coordinate \<open>j\<close>.\<close>

definition average_coord :: "nat \<Rightarrow> kstate \<Rightarrow> nat \<Rightarrow> kstate" where
  "average_coord i s j =
     s\<lparr> clusters :=
           (if newClusterSize s ! i > 1
            then (clusters s)[j := (clusters s ! j)[i := newClusters s ! j ! i / real_of_int (newClusterSize s ! i)]]
            else clusters s),
         newClusters := (newClusters s)[j := (newClusters s ! j)[i := 0]] \<rparr>"

text \<open>The body of the outer loop, for cluster \<open>i\<close>.\<close>

definition average_cluster :: "nat \<Rightarrow> kstate \<Rightarrow> nat \<Rightarrow> kstate" where
  "average_cluster numCoords s i =
     (let s' = foldl (average_coord i) s [0..<numCoords]
      in s'\<lparr> newClusterSize := (newClusterSize s')[i := 0] \<rparr>)"

definition update_centroids :: "nat \<Rightarrow> nat \<Rightarrow> kstate \<Rightarrow> kstate" where
  "update_centroids numClusters numCoords s =
     foldl (average_cluster numCoords) s [0..<numClusters]"

subsection \<open>The loop (lines 366-429)\<close>

text \<open>
  The body of the \<^verbatim>\<open>do ... while\<close>: one pass. Line 428, \<^verbatim>\<open>delta /= numObjs\<close>,
  converts \<^verbatim>\<open>numObjs\<close> to float and divides in float.
\<close>

definition iteration :: "nat \<Rightarrow> nat \<Rightarrow> nat \<Rightarrow> real list list \<Rightarrow> kstate \<Rightarrow> kstate" where
  "iteration numClusters numCoords numObjs objects s =
     (let s1 = s\<lparr> delta := 0 \<rparr>;
          s2 = assignment_pass numClusters numCoords numObjs objects s1;
          s3 = update_centroids numClusters numCoords s2
      in s3\<lparr> delta := fl32 (delta s3 / fl32 (real numObjs)) \<rparr>)"

text \<open>
  \<^verbatim>\<open>do { ... } while (delta > threshold && loop++ < 500);\<close>
  The condition is evaluated left to right: \<^verbatim>\<open>loop++\<close> runs only when
  \<^verbatim>\<open>delta > threshold\<close>, compares the old value of \<^verbatim>\<open>loop\<close> with 500 and then
  increments it, also when the comparison fails. The result is the final value of
  \<^verbatim>\<open>loop\<close>, the number of times the body has run (\<open>passes\<close>, a counter the C code
  does not have) and the final state. \<open>threshold\<close> is the value of the float the caller
  passes; the comparison of two floats is exact.
\<close>

function kmeans_loop ::
  "nat \<Rightarrow> nat \<Rightarrow> nat \<Rightarrow> real list list \<Rightarrow> real \<Rightarrow> nat \<Rightarrow> nat \<Rightarrow> kstate \<Rightarrow> nat \<times> nat \<times> kstate" where
  "kmeans_loop numClusters numCoords numObjs objects threshold loop passes s =
     (let s' = iteration numClusters numCoords numObjs objects s in
      if delta s' > threshold
      then (if loop < 500
            then kmeans_loop numClusters numCoords numObjs objects threshold (loop + 1) (passes + 1) s'
            else (loop + 1, passes + 1, s'))
      else (loop, passes + 1, s'))"
  by pat_completeness auto
termination
  by (relation "measure (\<lambda>(numClusters, numCoords, numObjs, objects, threshold, loop, passes, s). 500 - loop)") auto

declare kmeans_loop.simps [simp del]

subsection \<open>The improved \<^verbatim>\<open>omp_kmeans\<close> (lines 335-441)\<close>

text \<open>Lines 352-363: \<^verbatim>\<open>membership[i] = -1\<close>; the accumulators come from \<^verbatim>\<open>calloc\<close>.\<close>

definition init_state :: "nat \<Rightarrow> nat \<Rightarrow> nat \<Rightarrow> real list list \<Rightarrow> kstate" where
  "init_state numClusters numCoords numObjs cl =
     \<lparr> membership = replicate numObjs (- 1),
       clusters = cl,
       newClusters = replicate numCoords (replicate numClusters 0),
       newClusterSize = replicate numClusters 0,
       delta = 0 \<rparr>"

text \<open>
  What the caller sees: the returned \<^verbatim>\<open>int\<close> and the two arrays written through the
  pointers \<^verbatim>\<open>membership\<close> and \<^verbatim>\<open>clusters\<close>.
\<close>

record kmeans_out =
  ret :: int
  out_membership :: "int list"
  out_clusters :: "real list list"

definition kmeans_run ::
  "real list list \<Rightarrow> nat \<Rightarrow> nat \<Rightarrow> nat \<Rightarrow> real \<Rightarrow> real list list \<Rightarrow> nat \<times> nat \<times> kstate" where
  "kmeans_run objects numCoords numObjs numClusters threshold cl =
     kmeans_loop numClusters numCoords numObjs objects threshold 0 0
       (init_state numClusters numCoords numObjs cl)"

definition omp_kmeans ::
  "int \<Rightarrow> real list list \<Rightarrow> nat \<Rightarrow> nat \<Rightarrow> nat \<Rightarrow> real \<Rightarrow> real list list \<Rightarrow> kmeans_out" where
  "omp_kmeans is_perform_atomic objects numCoords numObjs numClusters threshold cl =
     (case kmeans_run objects numCoords numObjs numClusters threshold cl of
        (loop, passes, s) \<Rightarrow>
          \<lparr> ret = 1, out_membership = membership s, out_clusters = clusters s \<rparr>)"

definition passes_run :: "real list list \<Rightarrow> nat \<Rightarrow> nat \<Rightarrow> nat \<Rightarrow> real \<Rightarrow> real list list \<Rightarrow> nat" where
  "passes_run objects numCoords numObjs numClusters threshold cl =
     fst (snd (kmeans_run objects numCoords numObjs numClusters threshold cl))"

text \<open>
  The inputs of the shape the header gives: \<^verbatim>\<open>objects\<close> is
  \<^verbatim>\<open>[numObjs][numCoords]\<close>, \<^verbatim>\<open>clusters\<close> is \<^verbatim>\<open>[numCoords][numClusters]\<close>, the three
  sizes are positive.
\<close>

definition wf_input :: "real list list \<Rightarrow> nat \<Rightarrow> nat \<Rightarrow> nat \<Rightarrow> real list list \<Rightarrow> bool" where
  "wf_input objects numCoords numObjs numClusters cl \<longleftrightarrow>
     0 < numCoords \<and> 0 < numObjs \<and> 0 < numClusters \<and>
     length objects = numObjs \<and> list_all (\<lambda>row. length row = numCoords) objects \<and>
     length cl = numCoords \<and> list_all (\<lambda>row. length row = numClusters) cl"

text \<open>The shape of a state that the loop keeps.\<close>

definition wf_state :: "nat \<Rightarrow> nat \<Rightarrow> nat \<Rightarrow> kstate \<Rightarrow> bool" where
  "wf_state numClusters numCoords numObjs s \<longleftrightarrow>
     length (membership s) = numObjs \<and>
     length (clusters s) = numCoords \<and> list_all (\<lambda>row. length row = numClusters) (clusters s) \<and>
     length (newClusters s) = numCoords \<and> list_all (\<lambda>row. length row = numClusters) (newClusters s) \<and>
     length (newClusterSize s) = numClusters"


section \<open>The base version (lines 1-296)\<close>

subsection \<open>\<^verbatim>\<open>euclid_dist_2\<close> and \<^verbatim>\<open>find_nearest_cluster\<close> (lines 30-69)\<close>

definition euclid_dist_2 :: "nat \<Rightarrow> real list \<Rightarrow> real list \<Rightarrow> real" where
  "euclid_dist_2 numdims coord1 coord2 =
     foldl (\<lambda>ans i. ans + (coord1 ! i - coord2 ! i) * (coord1 ! i - coord2 ! i)) 0 [0..<numdims]"

text \<open>The body of the loop of lines 60-67; the pair is \<^verbatim>\<open>(index, min_dist)\<close>.\<close>

definition nearest_step :: "nat \<Rightarrow> real list \<Rightarrow> real list list \<Rightarrow> nat \<times> real \<Rightarrow> nat \<Rightarrow> nat \<times> real" where
  "nearest_step numCoords object cl im i =
     (let dist = euclid_dist_2 numCoords object (cl ! i)
      in if dist < snd im then (i, dist) else im)"

text \<open>Here \<^verbatim>\<open>clusters\<close> is \<^verbatim>\<open>[numClusters][numCoords]\<close>: row \<open>i\<close> is centroid \<open>i\<close>.\<close>

definition find_nearest_cluster :: "nat \<Rightarrow> nat \<Rightarrow> real list \<Rightarrow> real list list \<Rightarrow> nat" where
  "find_nearest_cluster numClusters numCoords object cl =
     fst (foldl (nearest_step numCoords object cl)
            (0, euclid_dist_2 numCoords object (cl ! 0)) [1..<numClusters])"

subsection \<open>State of the base version\<close>

text \<open>
  \<^verbatim>\<open>newClusters\<close> is \<^verbatim>\<open>numCoords\<close> row pointers into one block of
  \<^verbatim>\<open>numCoords * numClusters\<close> floats, row \<open>a\<close> starting at \<^verbatim>\<open>a * numClusters\<close>
  (lines 103-108): \<^verbatim>\<open>newClusters[a][b]\<close> is element \<^verbatim>\<open>a * numClusters + b\<close> of the
  block. The per-thread buffers exist only when \<^verbatim>\<open>is_perform_atomic\<close> is 0.
\<close>

record bstate =
  b_membership :: "int list"                     \<comment> \<open>\<^verbatim>\<open>[numObjs]\<close>\<close>
  b_clusters :: "real list list"                 \<comment> \<open>the caller's \<^verbatim>\<open>float **\<close>\<close>
  b_newClusters :: "real list"                   \<comment> \<open>the block of \<^verbatim>\<open>numCoords * numClusters\<close>\<close>
  b_newClusterSize :: "int list"                 \<comment> \<open>\<^verbatim>\<open>[numClusters]\<close>\<close>
  b_local_newClusterSize :: "int list list"      \<comment> \<open>\<^verbatim>\<open>[nthreads][numClusters]\<close>\<close>
  b_local_newClusters :: "real list list list"   \<comment> \<open>\<^verbatim>\<open>[nthreads][numClusters][numCoords]\<close>\<close>
  b_delta :: real

subsection \<open>Atomic discipline (lines 144-218)\<close>

text \<open>
  \<^verbatim>\<open>int current_object_coord = objects[k][i];\<close> converts a float to an int: the
  fraction is dropped (truncation towards zero).
\<close>

definition c_trunc :: "real \<Rightarrow> int" where
  "c_trunc x = (if 0 \<le> x then \<lfloor>x\<rfloor> else \<lceil>x\<rceil>)"

text \<open>
  One step of the loops over \<open>j\<close> (lines 166-173 for \<open>k = 0\<close>, where
  \<^verbatim>\<open>distArray[j]\<close> is assigned, and lines 180-187 for the other \<open>k\<close>, where it is
  added to). The state is \<^verbatim>\<open>(distArray, index, min_dist)\<close>.
\<close>

definition atomic_dist_step ::
  "nat \<Rightarrow> real list list \<Rightarrow> nat \<Rightarrow> int \<Rightarrow> real list \<times> nat \<times> real \<Rightarrow> nat \<Rightarrow> real list \<times> nat \<times> real" where
  "atomic_dist_step numCoords cl k current_object_coord st j =
     (case st of (distArray, index, min_dist) \<Rightarrow>
        let sq = (real_of_int current_object_coord - cl ! k ! j) *
                 (real_of_int current_object_coord - cl ! k ! j);
            d = (if k = 0 then sq else distArray ! j + sq)
        in if int k = int numCoords - 1 \<and> d < min_dist
           then (distArray[j := d], j, d)
           else (distArray[j := d], index, min_dist))"

text \<open>The loop over \<open>j\<close> for one \<open>k\<close>.\<close>

definition atomic_coord_step ::
  "nat \<Rightarrow> nat \<Rightarrow> real list list \<Rightarrow> real list list \<Rightarrow> nat \<Rightarrow> real list \<times> nat \<times> real \<Rightarrow> nat \<Rightarrow> real list \<times> nat \<times> real" where
  "atomic_coord_step numClusters numCoords objects cl i st k =
     foldl (atomic_dist_step numCoords cl k (c_trunc (objects ! k ! i))) st [0..<numClusters]"

text \<open>
  Lines 161-188. \<^verbatim>\<open>distArray\<close> comes from \<^verbatim>\<open>malloc\<close>; every element is assigned in
  the loop for \<open>k = 0\<close> before it is read, so its initial content does not matter.
\<close>

definition atomic_nearest :: "nat \<Rightarrow> nat \<Rightarrow> real list list \<Rightarrow> real list list \<Rightarrow> nat \<Rightarrow> nat" where
  "atomic_nearest numClusters numCoords objects cl i =
     fst (snd (foldl (atomic_coord_step numClusters numCoords objects cl i)
                 (atomic_coord_step numClusters numCoords objects cl i
                    (replicate numClusters 0, 0, real_of_int INT_MAX) 0)
                 [1..<numCoords]))"

text \<open>Lines 210-212: \<^verbatim>\<open>newClusters[j][index] += objects[j][i]\<close>.\<close>

definition atomic_add_coord :: "nat \<Rightarrow> real list list \<Rightarrow> nat \<Rightarrow> nat \<Rightarrow> real list \<Rightarrow> nat \<Rightarrow> real list" where
  "atomic_add_coord numClusters objects i index nc j =
     nc[j * numClusters + index := nc ! (j * numClusters + index) + objects ! j ! i]"

definition atomic_object :: "nat \<Rightarrow> nat \<Rightarrow> real list list \<Rightarrow> bstate \<Rightarrow> nat \<Rightarrow> bstate" where
  "atomic_object numClusters numCoords objects s i =
     (let index = atomic_nearest numClusters numCoords objects (b_clusters s) i
      in s\<lparr> b_delta := (if b_membership s ! i \<noteq> int index then fl32 (b_delta s + 1) else b_delta s),
            b_membership := (b_membership s)[i := int index],
            b_newClusterSize := (b_newClusterSize s)[index := b_newClusterSize s ! index + 1],
            b_newClusters := foldl (atomic_add_coord numClusters objects i index)
                               (b_newClusters s) [0..<numCoords] \<rparr>)"

subsection \<open>Thread-local discipline (lines 219-259)\<close>

text \<open>Lines 243-244: \<^verbatim>\<open>local_newClusters[tid][index][j] += objects[i][j]\<close>.\<close>

definition local_add_coord ::
  "nat \<Rightarrow> nat \<Rightarrow> real list \<Rightarrow> real list list list \<Rightarrow> nat \<Rightarrow> real list list list" where
  "local_add_coord tid index object lnc j =
     lnc[tid := (lnc ! tid)[index := (lnc ! tid ! index)[j := lnc ! tid ! index ! j + object ! j]]]"

text \<open>
  The body of the loop over the objects (lines 229-245). \<open>sched i\<close> is the thread that
  \<^verbatim>\<open>schedule(static)\<close> gives iteration \<open>i\<close> to (\<^verbatim>\<open>omp_get_thread_num()\<close> there).
\<close>

definition local_object ::
  "(nat \<Rightarrow> nat) \<Rightarrow> nat \<Rightarrow> nat \<Rightarrow> real list list \<Rightarrow> bstate \<Rightarrow> nat \<Rightarrow> bstate" where
  "local_object sched numClusters numCoords objects s i =
     (let tid = sched i;
          index = find_nearest_cluster numClusters numCoords (objects ! i) (b_clusters s)
      in s\<lparr> b_delta := (if b_membership s ! i \<noteq> int index then fl32 (b_delta s + 1) else b_delta s),
            b_membership := (b_membership s)[i := int index],
            b_local_newClusterSize :=
              (b_local_newClusterSize s)
                [tid := (b_local_newClusterSize s ! tid)
                          [index := b_local_newClusterSize s ! tid ! index + 1]],
            b_local_newClusters := foldl (local_add_coord tid index (objects ! i))
                                     (b_local_newClusters s) [0..<numCoords] \<rparr>)"

text \<open>
  The reduction of lines 249-258. Line 254 is \<^verbatim>\<open>newClusters[i][k] += ...\<close> with the
  cluster \<open>i\<close> as the row: element \<^verbatim>\<open>i * numClusters + k\<close> of the block.
\<close>

definition merge_coord :: "nat \<Rightarrow> nat \<Rightarrow> nat \<Rightarrow> bstate \<Rightarrow> nat \<Rightarrow> bstate" where
  "merge_coord numClusters i j s k =
     s\<lparr> b_newClusters :=
           (b_newClusters s)[i * numClusters + k :=
              b_newClusters s ! (i * numClusters + k) + b_local_newClusters s ! j ! i ! k],
         b_local_newClusters :=
           (b_local_newClusters s)[j := (b_local_newClusters s ! j)
              [i := (b_local_newClusters s ! j ! i)[k := 0]]] \<rparr>"

definition merge_thread :: "nat \<Rightarrow> nat \<Rightarrow> nat \<Rightarrow> bstate \<Rightarrow> nat \<Rightarrow> bstate" where
  "merge_thread numClusters numCoords i s j =
     foldl (merge_coord numClusters i j)
       (s\<lparr> b_newClusterSize :=
              (b_newClusterSize s)[i := b_newClusterSize s ! i + b_local_newClusterSize s ! j ! i],
            b_local_newClusterSize :=
              (b_local_newClusterSize s)[j := (b_local_newClusterSize s ! j)[i := 0]] \<rparr>)
       [0..<numCoords]"

definition merge_cluster :: "nat \<Rightarrow> nat \<Rightarrow> nat \<Rightarrow> bstate \<Rightarrow> nat \<Rightarrow> bstate" where
  "merge_cluster nthreads numClusters numCoords s i =
     foldl (merge_thread numClusters numCoords i) s [0..<nthreads]"

definition merge_local :: "nat \<Rightarrow> nat \<Rightarrow> nat \<Rightarrow> bstate \<Rightarrow> bstate" where
  "merge_local nthreads numClusters numCoords s =
     foldl (merge_cluster nthreads numClusters numCoords) s [0..<numClusters]"

text \<open>The assignment pass with the reduction: the state at line 259.\<close>

definition local_pass ::
  "nat \<Rightarrow> (nat \<Rightarrow> nat) \<Rightarrow> nat \<Rightarrow> nat \<Rightarrow> nat \<Rightarrow> real list list \<Rightarrow> bstate \<Rightarrow> bstate" where
  "local_pass nthreads sched numClusters numCoords numObjs objects s =
     merge_local nthreads numClusters numCoords
       (foldl (local_object sched numClusters numCoords objects) s [0..<numObjs])"

subsection \<open>Centroid update and loop of the base version (lines 261-274)\<close>

text \<open>
  Lines 265-267 read and write \<^verbatim>\<open>newClusters[j][i]\<close> with the coordinate \<open>j\<close> as
  the row: element \<^verbatim>\<open>j * numClusters + i\<close> of the block.
\<close>

definition b_average_coord :: "nat \<Rightarrow> nat \<Rightarrow> bstate \<Rightarrow> nat \<Rightarrow> bstate" where
  "b_average_coord numClusters i s j =
     s\<lparr> b_clusters :=
           (if b_newClusterSize s ! i > 1
            then (b_clusters s)[j := (b_clusters s ! j)
                   [i := b_newClusters s ! (j * numClusters + i) / real_of_int (b_newClusterSize s ! i)]]
            else b_clusters s),
         b_newClusters := (b_newClusters s)[j * numClusters + i := 0] \<rparr>"

definition b_average_cluster :: "nat \<Rightarrow> nat \<Rightarrow> bstate \<Rightarrow> nat \<Rightarrow> bstate" where
  "b_average_cluster numClusters numCoords s i =
     (let s' = foldl (b_average_coord numClusters i) s [0..<numCoords]
      in s'\<lparr> b_newClusterSize := (b_newClusterSize s')[i := 0] \<rparr>)"

definition b_update_centroids :: "nat \<Rightarrow> nat \<Rightarrow> bstate \<Rightarrow> bstate" where
  "b_update_centroids numClusters numCoords s =
     foldl (b_average_cluster numClusters numCoords) s [0..<numClusters]"

text \<open>
  The body of the \<^verbatim>\<open>do ... while\<close> of lines 141-274. \<^verbatim>\<open>delta\<close> is counted
  (lines 194 and 235) and divided (line 273) in float, as in the improved version.
\<close>

definition base_iteration ::
  "int \<Rightarrow> nat \<Rightarrow> (nat \<Rightarrow> nat) \<Rightarrow> nat \<Rightarrow> nat \<Rightarrow> nat \<Rightarrow> real list list \<Rightarrow> bstate \<Rightarrow> bstate" where
  "base_iteration is_perform_atomic nthreads sched numClusters numCoords numObjs objects s =
     (let s1 = s\<lparr> b_delta := 0 \<rparr>;
          s2 = (if is_perform_atomic \<noteq> 0
                then foldl (atomic_object numClusters numCoords objects) s1 [0..<numObjs]
                else local_pass nthreads sched numClusters numCoords numObjs objects s1);
          s3 = b_update_centroids numClusters numCoords s2
      in s3\<lparr> b_delta := fl32 (b_delta s3 / fl32 (real numObjs)) \<rparr>)"

function base_loop ::
  "int \<Rightarrow> nat \<Rightarrow> (nat \<Rightarrow> nat) \<Rightarrow> nat \<Rightarrow> nat \<Rightarrow> nat \<Rightarrow> real list list \<Rightarrow> real \<Rightarrow> nat \<Rightarrow> bstate \<Rightarrow> nat \<times> bstate" where
  "base_loop is_perform_atomic nthreads sched numClusters numCoords numObjs objects threshold loop s =
     (let s' = base_iteration is_perform_atomic nthreads sched numClusters numCoords numObjs objects s in
      if b_delta s' > threshold
      then (if loop < 500
            then base_loop is_perform_atomic nthreads sched numClusters numCoords numObjs objects
                   threshold (loop + 1) s'
            else (loop + 1, s'))
      else (loop, s'))"
  by pat_completeness auto
termination
  by (relation "measure (\<lambda>(is_perform_atomic, nthreads, sched, numClusters, numCoords, numObjs, objects, threshold, loop, s). 500 - loop)") auto

declare base_loop.simps [simp del]

text \<open>
  Lines 94-138. \<open>nthreads\<close> is \<^verbatim>\<open>omp_get_max_threads()\<close>. The per-thread buffers are
  allocated (zeroed) only when \<^verbatim>\<open>is_perform_atomic\<close> is 0.
\<close>

definition base_init :: "int \<Rightarrow> nat \<Rightarrow> nat \<Rightarrow> nat \<Rightarrow> nat \<Rightarrow> real list list \<Rightarrow> bstate" where
  "base_init is_perform_atomic nthreads numClusters numCoords numObjs cl =
     \<lparr> b_membership = replicate numObjs (- 1),
       b_clusters = cl,
       b_newClusters = replicate (numCoords * numClusters) 0,
       b_newClusterSize = replicate numClusters 0,
       b_local_newClusterSize =
         (if is_perform_atomic \<noteq> 0 then [] else replicate nthreads (replicate numClusters 0)),
       b_local_newClusters =
         (if is_perform_atomic \<noteq> 0 then []
          else replicate nthreads (replicate numClusters (replicate numCoords 0))),
       b_delta = 0 \<rparr>"

definition omp_kmeans_base ::
  "nat \<Rightarrow> (nat \<Rightarrow> nat) \<Rightarrow> int \<Rightarrow> real list list \<Rightarrow> nat \<Rightarrow> nat \<Rightarrow> nat \<Rightarrow> real \<Rightarrow> real list list \<Rightarrow> kmeans_out" where
  "omp_kmeans_base nthreads sched is_perform_atomic objects numCoords numObjs numClusters threshold cl =
     (case base_loop is_perform_atomic nthreads sched numClusters numCoords numObjs objects threshold 0
             (base_init is_perform_atomic nthreads numClusters numCoords numObjs cl) of
        (loop, s) \<Rightarrow>
          \<lparr> ret = 1, out_membership = b_membership s, out_clusters = b_clusters s \<rparr>)"

text \<open>The state of the base version after \<open>n\<close> runs of the loop body.\<close>

primrec base_run_state ::
  "int \<Rightarrow> nat \<Rightarrow> (nat \<Rightarrow> nat) \<Rightarrow> real list list \<Rightarrow> nat \<Rightarrow> nat \<Rightarrow> nat \<Rightarrow> real list list \<Rightarrow> nat \<Rightarrow> bstate" where
  "base_run_state is_perform_atomic nthreads sched objects numCoords numObjs numClusters cl 0 =
     base_init is_perform_atomic nthreads numClusters numCoords numObjs cl"
| "base_run_state is_perform_atomic nthreads sched objects numCoords numObjs numClusters cl (Suc n) =
     base_iteration is_perform_atomic nthreads sched numClusters numCoords numObjs objects
       (base_run_state is_perform_atomic nthreads sched objects numCoords numObjs numClusters cl n)"

section \<open>Statements\<close>

subsection \<open>Vocabulary of the statements\<close>

text \<open>The state in which the assignment pass of one iteration ends (after line 416).\<close>

definition pass_state :: "nat \<Rightarrow> nat \<Rightarrow> nat \<Rightarrow> real list list \<Rightarrow> kstate \<Rightarrow> kstate" where
  "pass_state numClusters numCoords numObjs objects s =
     assignment_pass numClusters numCoords numObjs objects (s\<lparr> delta := 0 \<rparr>)"

text \<open>The state after \<open>n\<close> runs of the loop body, from the initial state.\<close>

primrec run_state ::
  "real list list \<Rightarrow> nat \<Rightarrow> nat \<Rightarrow> nat \<Rightarrow> real list list \<Rightarrow> nat \<Rightarrow> kstate" where
  "run_state objects numCoords numObjs numClusters cl 0 =
     init_state numClusters numCoords numObjs cl"
| "run_state objects numCoords numObjs numClusters cl (Suc n) =
     iteration numClusters numCoords numObjs objects
       (run_state objects numCoords numObjs numClusters cl n)"

text \<open>The objects a membership array assigns to cluster \<open>k\<close>, and their number.\<close>

definition members :: "int list \<Rightarrow> nat \<Rightarrow> nat \<Rightarrow> nat list" where
  "members m numObjs k = filter (\<lambda>i. m ! i = int k) [0..<numObjs]"

definition member_count :: "int list \<Rightarrow> nat \<Rightarrow> nat \<Rightarrow> nat" where
  "member_count m numObjs k = length (members m numObjs k)"

text \<open>The sum of coordinate \<open>j\<close> over the objects with the given indices.\<close>

definition coord_sum :: "real list list \<Rightarrow> nat list \<Rightarrow> nat \<Rightarrow> real" where
  "coord_sum objects idxs j = sum_list (map (\<lambda>i. objects ! i ! j) idxs)"

text \<open>The number of objects whose entry differs between two membership arrays.\<close>

definition changed :: "int list \<Rightarrow> int list \<Rightarrow> nat \<Rightarrow> nat" where
  "changed m m' numObjs = length (filter (\<lambda>i. m ! i \<noteq> m' ! i) [0..<numObjs])"

text \<open>All accumulators are zero.\<close>

definition zero_acc :: "nat \<Rightarrow> nat \<Rightarrow> kstate \<Rightarrow> bool" where
  "zero_acc numClusters numCoords s \<longleftrightarrow>
     newClusters s = replicate numCoords (replicate numClusters 0) \<and>
     newClusterSize s = replicate numClusters 0"

text \<open>
  The member counts of the base version: all counts held in \<^verbatim>\<open>newClusterSize\<close> and in
  the per-thread \<^verbatim>\<open>local_newClusterSize\<close> together, and the shape of the two arrays.
\<close>

definition count_total :: "bstate \<Rightarrow> int" where
  "count_total s =
     sum_list (b_newClusterSize s) + sum_list (map sum_list (b_local_newClusterSize s))"

definition count_shape :: "nat \<Rightarrow> nat \<Rightarrow> bstate \<Rightarrow> bool" where
  "count_shape nthreads numClusters s \<longleftrightarrow>
     length (b_newClusterSize s) = numClusters \<and>
     length (b_local_newClusterSize s) = nthreads \<and>
     list_all (\<lambda>row. length row = numClusters) (b_local_newClusterSize s)"

text \<open>Every iteration of the loop over the objects is given to one of the threads.\<close>

definition wf_sched :: "nat \<Rightarrow> (nat \<Rightarrow> nat) \<Rightarrow> nat \<Rightarrow> bool" where
  "wf_sched nthreads sched numObjs \<longleftrightarrow> list_all (\<lambda>i. sched i < nthreads) [0..<numObjs]"

text \<open>The squared Euclidean distance between an object and centroid \<open>j\<close> of \<^verbatim>\<open>[numCoords][numClusters]\<close>.\<close>

definition sq_dist :: "nat \<Rightarrow> real list \<Rightarrow> real list list \<Rightarrow> nat \<Rightarrow> real" where
  "sq_dist numCoords object cl j = (\<Sum>k<numCoords. (object ! k - cl ! k ! j)\<^sup>2)"

subsection \<open>Inputs of the examples\<close>

text \<open>
  Three objects on a line, two clusters, the centroids start at 0 and 11. The first pass
  gives cluster 0 the objects at 0 and 2 and cluster 1 the object at 10.
\<close>

definition ex_objects :: "real list list" where
  "ex_objects = [[0], [2], [10]]"

definition ex_clusters :: "real list list" where
  "ex_clusters = [[0, 11]]"

text \<open>
  One object at 0 on a line and two centroids, at 100000 and at 50000: both squared
  distances, 10000000000 and 2500000000, are above \<^verbatim>\<open>INT_MAX\<close>.
\<close>

definition far_object :: "real list" where
  "far_object = [0]"

definition far_clusters :: "real list list" where
  "far_clusters = [[100000, 50000]]"

text \<open>
  Seven objects on a line, two clusters, the initial centroids are the first two objects.
  From the second pass on the run goes through the same six states again and again; in
  each of them one object changes its cluster. The object at 192000 is more than 46341
  away from both centroids in every pass (its squared distances are above
  \<^verbatim>\<open>INT_MAX\<close>) and so keeps index 0, which pulls centroid 0 away from the others.
\<close>

definition cap_objects :: "real list list" where
  "cap_objects = [[72000], [36000], [192000], [0], [84000], [36000], [60000]]"

definition cap_clusters :: "real list list" where
  "cap_clusters = [[72000, 36000]]"

definition cap_state :: "int list \<Rightarrow> real \<Rightarrow> real \<Rightarrow> real \<Rightarrow> kstate" where
  "cap_state m c0 c1 d =
     \<lparr> membership = m, clusters = [[c0, c1]], newClusters = [[0, 0]],
       newClusterSize = [0, 0], delta = d \<rparr>"

text \<open>The initial state, the state after the first pass, and the six states of the cycle.\<close>

definition cap_cycle :: "kstate list" where
  "cap_cycle =
     [cap_state [- 1, - 1, - 1, - 1, - 1, - 1, - 1] 72000 36000 0,
      cap_state [0, 1, 0, 1, 0, 1, 0] 102000 24000 1,
      cap_state [0, 1, 0, 1, 0, 1, 1] 116000 33000 (9586981 / 67108864),
      cap_state [1, 1, 0, 1, 0, 1, 1] 138000 40800 (9586981 / 67108864),
      cap_state [1, 1, 0, 1, 1, 1, 1] 138000 48000 (9586981 / 67108864),
      cap_state [1, 1, 0, 0, 1, 1, 1] 96000 57600 (9586981 / 67108864),
      cap_state [1, 1, 0, 0, 0, 1, 1] 92000 51000 (9586981 / 67108864),
      cap_state [0, 1, 0, 0, 0, 1, 1] 87000 44000 (9586981 / 67108864)]"

text \<open>One object that is its own centroid.\<close>

definition one_object :: "real list list" where
  "one_object = [[5]]"

text \<open>
  Two objects with two coordinates, \<open>(1/2, 0)\<close> and \<open>(0, 3/4)\<close>, which are also the two
  initial centroids. The matrix is symmetric, so it gives the same objects and centroids
  whether it is read \<^verbatim>\<open>[object][coordinate]\<close> (thread-local branch) or
  \<^verbatim>\<open>[coordinate][object]\<close> (atomic branch), and with two objects, two coordinates and
  two clusters every index of both branches is in range.
\<close>

definition sq_objects :: "real list list" where
  "sq_objects = [[1 / 2, 0], [0, 3 / 4]]"

text \<open>
  Three objects with two coordinates, \<open>(0, 0)\<close>, \<open>(10, 10)\<close> and \<open>(1, 4)\<close>, read
  \<^verbatim>\<open>[object][coordinate]\<close>, and two initial centroids, the first two objects, read
  \<^verbatim>\<open>[cluster][coordinate]\<close> as \<^verbatim>\<open>find_nearest_cluster\<close> does. With two clusters and two
  coordinates every index of the thread-local branch and of the centroid update is in
  range.
\<close>

definition lay_objects :: "real list list" where
  "lay_objects = [[0, 0], [10, 10], [1, 4]]"

definition lay_clusters :: "real list list" where
  "lay_clusters = [[0, 0], [10, 10]]"

text \<open>
  Twenty-five objects on a line, eleven at -2, one at 4.5 and thirteen at 10; two
  centroids, which start at 0 and 10. The threshold is the float \<^verbatim>\<open>0.04f\<close>, which is
  \<open>5368709 / 2\<^sup>2\<^sup>7\<close>, a little less than 1/25. In the second pass the object at 4.5
  is the only one to change its cluster.
\<close>

definition edge_objects :: "real list list" where
  "edge_objects = replicate 11 [- 2] @ [[9 / 2]] @ replicate 13 [10]"

definition edge_clusters :: "real list list" where
  "edge_clusters = [[0, 10]]"

definition edge_threshold :: real where
  "edge_threshold = 5368709 / 134217728"

text \<open>\<open>2\<^sup>2\<^sup>5\<close> objects at 0 on a line, one cluster, its centroid at 0.\<close>

definition big_numObjs :: nat where
  "big_numObjs = 33554432"

definition big_objects :: "real list list" where
  "big_objects = replicate big_numObjs [0]"

definition big_clusters :: "real list list" where
  "big_clusters = [[0]]"

section \<open>Facts about the improved version\<close>

subsection \<open>Rounding\<close>

text \<open>
  A whole number up to \<open>2\<^sup>2\<^sup>4\<close> is a float: counting in a float and converting
  \<^verbatim>\<open>numObjs\<close> to float are exact up to there. The next whole number is not a float, and
  adding 1 to \<open>2\<^sup>2\<^sup>4\<close> gives \<open>2\<^sup>2\<^sup>4\<close> again.
\<close>

lemma round_even_of_int: "round_even (real_of_int m) = m"
  by (simp add: round_even_def)

lemma ulp_up_form:
  "\<exists>j\<le>fuel. ulp_up fuel u a = u * 2 ^ j \<and> (0 < j \<longrightarrow> u * 2 ^ (j - 1) * 16777216 \<le> a)"
proof (induction fuel arbitrary: u)
  case 0
  show ?case by simp
next
  case (Suc fuel)
  show ?case
  proof (cases "a < u * 16777216")
    case True
    then show ?thesis by (intro exI [of _ 0]) simp
  next
    case False
    obtain j where j: "j \<le> fuel" "ulp_up fuel (2 * u) a = 2 * u * 2 ^ j"
      "0 < j \<longrightarrow> 2 * u * 2 ^ (j - 1) * 16777216 \<le> a"
      using Suc.IH [of "2 * u"] by blast
    have "u * 2 ^ j * 16777216 \<le> a"
    proof (cases j)
      case 0
      then show ?thesis using False by simp
    next
      case (Suc j')
      then show ?thesis using j(3) by simp
    qed
    then show ?thesis using False j(1,2) by (intro exI [of _ "Suc j"]) simp
  qed
qed

lemma fl32_nat:
  assumes k: "k \<le> 16777216"
  shows "fl32 (real k) = real k"
proof (cases "k = 0")
  case True
  then show ?thesis by (simp add: fl32_def round_even_def)
next
  case False
  then have k1: "1 \<le> real k" by simp
  define u where "u = ulp32 \<bar>real k\<bar>"
  have u_up: "u = ulp_up 128 (1 / 16777216) (real k)" using k1 by (simp add: u_def ulp32_def)
  obtain j where j: "j \<le> 128" "u = 1 / 16777216 * 2 ^ j"
    "0 < j \<longrightarrow> 1 / 16777216 * 2 ^ (j - 1) * 16777216 \<le> real k"
    using ulp_up_form [of 128 "1 / 16777216" "real k"] u_up by auto
  have upos: "0 < u" unfolding j(2) by simp
  have "\<exists>m. real k / u = real_of_int m"
  proof (cases "j \<le> 24")
    case True
    have "(2::real) ^ j * 2 ^ (24 - j) = 2 ^ 24" using True by (simp flip: power_add)
    then have e24: "(2::real) ^ j * 2 ^ (24 - j) = 16777216" by simp
    have "real k / u = real k * 16777216 / 2 ^ j" unfolding j(2) by simp
    also have "\<dots> = real k * (2 ^ j * 2 ^ (24 - j)) / 2 ^ j" by (simp only: e24)
    also have "\<dots> = real k * 2 ^ (24 - j)" by simp
    finally have "real k / u = real k * 2 ^ (24 - j)" .
    also have "\<dots> = real_of_int (int k * 2 ^ (24 - j))" by simp
    finally show ?thesis by blast
  next
    case False
    then have "0 < j" by simp
    then have le: "(2::real) ^ (j - 1) \<le> real k" using j(3) by simp
    have "real k \<le> 2 ^ 24" using k by simp
    then have "(2::real) ^ (j - 1) \<le> 2 ^ 24" using le by linarith
    then have "j - 1 \<le> 24" by (simp only: power_increasing_iff [of "2::real"])
    then have j25: "j = 25" using False by simp
    have "(2::real) ^ 24 \<le> real k" using le j25 by simp
    then have "k = 16777216" using k by simp
    then have "real k / u = real_of_int 8388608" using j(2) j25 by simp
    then show ?thesis by blast
  qed
  then obtain m where m: "real k / u = real_of_int m" by blast
  have "fl32 (real k) = real_of_int (round_even (real k / u)) * u"
    by (simp add: fl32_def u_def Let_def)
  also have "\<dots> = real k / u * u" using m round_even_of_int by simp
  also have "\<dots> = real k" using upos by simp
  finally show ?thesis .
qed

lemma fl32_stuck: "fl32 (16777216 + 1) = 16777216"
  by code_simp

subsection \<open>Lists\<close>

lemma list_all_update:
  "list_all P xs \<Longrightarrow> (j < length xs \<Longrightarrow> P x) \<Longrightarrow> list_all P (xs[j := x])"
  by (cases "j < length xs") (auto simp: list_all_length nth_list_update)

lemma replicate_rows_eq:
  "length xss = n \<Longrightarrow> list_all (\<lambda>row. length row = m) xss \<Longrightarrow>
   (\<And>j k. j < n \<Longrightarrow> k < m \<Longrightarrow> xss ! j ! k = c) \<Longrightarrow> xss = replicate n (replicate m c)"
  by (auto simp: list_eq_iff_nth_eq list_all_length)

lemma replicate_eq_nth:
  "length xs = n \<Longrightarrow> (\<And>k. k < n \<Longrightarrow> xs ! k = c) \<Longrightarrow> xs = replicate n c"
  by (auto simp: list_eq_iff_nth_eq)

lemma sum_list_incr:
  "k < length xs \<Longrightarrow> sum_list (xs[k := xs ! k + 1]) = sum_list xs + (1::int)"
  by (induction xs arbitrary: k) (auto split: nat.splits)

lemma sum_list_update_int:
  "k < length xs \<Longrightarrow> sum_list (xs[k := x]) = sum_list xs - xs ! k + (x::int)"
  by (induction xs arbitrary: k) (auto split: nat.splits)

lemma sum_rows_update:
  "j < length xss \<Longrightarrow> i < length (xss ! j) \<Longrightarrow>
   sum_list (map sum_list (xss[j := (xss ! j)[i := x]])) =
     sum_list (map sum_list xss) - xss ! j ! i + (x::int)"
  by (simp add: map_update sum_list_update_int)

subsection \<open>The search for the nearest centroid\<close>

lemma scan_step_fst: "fst (scan_step d im j) = j \<or> fst (scan_step d im j) = fst im"
  by (simp add: scan_step_def)

lemma scan_fold_bound:
  "fst im < n \<Longrightarrow> b \<le> n \<Longrightarrow> fst (foldl (scan_step d) im [a..<b]) < n"
proof (induction b)
  case 0
  then show ?case by simp
next
  case (Suc b)
  show ?case
  proof (cases "a \<le> b")
    case True
    have "fst (foldl (scan_step d) im [a..<b]) < n" using Suc by simp
    moreover have "b < n" using Suc.prems by simp
    ultimately show ?thesis
      using True scan_step_fst [of d "foldl (scan_step d) im [a..<b]" b] by auto
  next
    case False
    then show ?thesis using Suc.prems by simp
  qed
qed

lemma nearest_index_less: "0 < numClusters \<Longrightarrow> nearest_index numClusters numCoords object cl < numClusters"
  unfolding nearest_index_def scan_min_def by (rule scan_fold_bound) simp_all

lemma dist_fold_nth:
  "1 \<le> b \<Longrightarrow>
   length (foldl (dist_add numClusters object cl) (dist_first numClusters object cl) [1..<b]) = numClusters \<and>
   (\<forall>j<numClusters.
      foldl (dist_add numClusters object cl) (dist_first numClusters object cl) [1..<b] ! j =
        (\<Sum>k<b. (object ! k - cl ! k ! j)\<^sup>2))"
proof (induction b)
  case 0
  then show ?case by simp
next
  case (Suc b)
  show ?case
  proof (cases "b = 0")
    case True
    then show ?thesis by (simp add: dist_first_def sq_term_def power2_eq_square)
  next
    case False
    then have b: "1 \<le> b" by simp
    then show ?thesis using Suc.IH [OF b]
      by (simp add: dist_add_def sq_term_def power2_eq_square)
  qed
qed

lemma dist_array_nth:
  "0 < numCoords \<Longrightarrow> j < numClusters \<Longrightarrow>
   dist_array numClusters numCoords object cl ! j = sq_dist numCoords object cl j"
  unfolding dist_array_def sq_dist_def using dist_fold_nth [of numCoords numClusters object cl] by simp

lemma scan_fold_min:
  "(case foldl (scan_step d) (0, M) [0..<b] of (idx, m) \<Rightarrow>
      m \<le> M \<and> (\<forall>j<b. m \<le> d ! j) \<and>
      (if m < M then idx < b \<and> m = d ! idx \<and> (\<forall>j<idx. m < d ! j) else idx = 0))"
proof (induction b)
  case 0
  then show ?case by simp
next
  case (Suc b)
  obtain idx m where r: "foldl (scan_step d) (0, M) [0..<b] = (idx, m)"
    by (cases "foldl (scan_step d) (0, M) [0..<b]")
  have ih: "m \<le> M" "\<And>j. j < b \<Longrightarrow> m \<le> d ! j"
    "m < M \<Longrightarrow> idx < b \<and> m = d ! idx \<and> (\<forall>j<idx. m < d ! j)" "\<not> m < M \<Longrightarrow> idx = 0"
    using Suc.IH r by (auto split: if_splits)
  have step: "foldl (scan_step d) (0, M) [0..<Suc b] = (if d ! b < m then (b, d ! b) else (idx, m))"
    using r by (simp add: scan_step_def)
  show ?case
  proof (cases "d ! b < m")
    case True
    have "\<And>j. j < Suc b \<Longrightarrow> d ! b \<le> d ! j" using True ih(2) by (force simp: less_Suc_eq)
    moreover have "\<And>j. j < b \<Longrightarrow> d ! b < d ! j" using True ih(2) by force
    ultimately show ?thesis unfolding step using True ih(1) by simp
  next
    case False
    then have "\<And>j. j < Suc b \<Longrightarrow> m \<le> d ! j" using ih(2) by (force simp: less_Suc_eq)
    then show ?thesis unfolding step using False ih by (auto simp: less_Suc_eq)
  qed
qed

lemma nearest_index_min:
  assumes D: "0 < numCoords" and j0: "j0 < numClusters"
    and below: "sq_dist numCoords object cl j0 < real_of_int INT_MAX"
  shows "nearest_index numClusters numCoords object cl < numClusters \<and>
    (\<forall>j<numClusters. sq_dist numCoords object cl (nearest_index numClusters numCoords object cl)
         \<le> sq_dist numCoords object cl j) \<and>
    (\<forall>j<nearest_index numClusters numCoords object cl.
       sq_dist numCoords object cl (nearest_index numClusters numCoords object cl)
         < sq_dist numCoords object cl j)"
proof -
  let ?d = "dist_array numClusters numCoords object cl"
  obtain idx m where r: "scan_min numClusters ?d = (idx, m)" by (cases "scan_min numClusters ?d")
  have n: "nearest_index numClusters numCoords object cl = idx"
    by (simp add: nearest_index_def r)
  have q: "m \<le> real_of_int INT_MAX" "\<And>j. j < numClusters \<Longrightarrow> m \<le> ?d ! j"
    "m < real_of_int INT_MAX \<Longrightarrow> idx < numClusters \<and> m = ?d ! idx \<and> (\<forall>j<idx. m < ?d ! j)"
    using scan_fold_min [where d = ?d and M = "real_of_int INT_MAX" and b = numClusters] r
    by (auto simp: scan_min_def split: if_splits)
  have "m \<le> ?d ! j0" using q(2) j0 by simp
  then have "m < real_of_int INT_MAX" using below dist_array_nth [OF D j0, of object cl] by simp
  then have i: "idx < numClusters" "m = ?d ! idx" "\<And>j. j < idx \<Longrightarrow> m < ?d ! j" using q(3) by auto
  have d: "\<And>j. j < numClusters \<Longrightarrow> ?d ! j = sq_dist numCoords object cl j"
    by (rule dist_array_nth [OF D])
  show ?thesis unfolding n using i q(2) d by auto
qed

subsection \<open>The assignment pass\<close>

lemma add_coord_length [simp]: "length (add_coord object index nc j) = length nc"
  by (simp add: add_coord_def)

lemma add_coord_rows:
  "list_all (\<lambda>row. length row = n) nc \<Longrightarrow> list_all (\<lambda>row. length row = n) (add_coord object index nc j)"
  unfolding add_coord_def by (rule list_all_update) (auto simp: list_all_length)

lemma add_coord_nth:
  "j < length nc \<Longrightarrow> index < length (nc ! j) \<Longrightarrow>
   add_coord object index nc j ! j' ! k =
     (if j' = j \<and> k = index then nc ! j ! index + object ! j else nc ! j' ! k)"
  by (auto simp: add_coord_def nth_list_update)

lemma add_object_fold:
  "m \<le> length nc \<Longrightarrow> list_all (\<lambda>row. length row = n) nc \<Longrightarrow> index < n \<Longrightarrow>
   length (foldl (add_coord object index) nc [0..<m]) = length nc \<and>
   list_all (\<lambda>row. length row = n) (foldl (add_coord object index) nc [0..<m]) \<and>
   (\<forall>j' k. j' < length nc \<longrightarrow> k < n \<longrightarrow>
      foldl (add_coord object index) nc [0..<m] ! j' ! k =
        (if j' < m \<and> k = index then nc ! j' ! index + object ! j' else nc ! j' ! k))"
proof (induction m)
  case 0
  then show ?case by simp
next
  case (Suc m)
  let ?f = "foldl (add_coord object index) nc [0..<m]"
  have ih: "length ?f = length nc" "list_all (\<lambda>row. length row = n) ?f"
    "\<And>j' k. j' < length nc \<Longrightarrow> k < n \<Longrightarrow>
       ?f ! j' ! k = (if j' < m \<and> k = index then nc ! j' ! index + object ! j' else nc ! j' ! k)"
    using Suc by auto
  have m: "m < length ?f" using Suc.prems ih by simp
  have row: "length (?f ! m) = n" using ih(2) m by (simp add: list_all_length)
  have step: "foldl (add_coord object index) nc [0..<Suc m] = add_coord object index ?f m"
    by simp
  show ?case
  proof (intro conjI allI impI)
    show "length (foldl (add_coord object index) nc [0..<Suc m]) = length nc"
      using ih by (simp del: upt_Suc add: step)
    show "list_all (\<lambda>row. length row = n) (foldl (add_coord object index) nc [0..<Suc m])"
      unfolding step by (rule add_coord_rows) (rule ih)
  next
    fix j' k assume jk: "j' < length nc" "k < n"
    have "add_coord object index ?f m ! j' ! k =
          (if j' = m \<and> k = index then ?f ! m ! index + object ! m else ?f ! j' ! k)"
      by (rule add_coord_nth) (use m row Suc.prems in auto)
    also have "\<dots> = (if j' < Suc m \<and> k = index then nc ! j' ! index + object ! j' else nc ! j' ! k)"
      using ih(3) jk Suc.prems m ih(1) by (auto simp: less_Suc_eq)
    finally show "foldl (add_coord object index) nc [0..<Suc m] ! j' ! k =
        (if j' < Suc m \<and> k = index then nc ! j' ! index + object ! j' else nc ! j' ! k)"
      unfolding step .
  qed
qed

lemma add_object_length:
  "length nc = numCoords \<Longrightarrow> list_all (\<lambda>row. length row = n) nc \<Longrightarrow> index < n \<Longrightarrow>
   length (add_object numCoords object index nc) = numCoords"
  unfolding add_object_def using add_object_fold [of numCoords nc n index object] by simp

lemma add_object_rows:
  "length nc = numCoords \<Longrightarrow> list_all (\<lambda>row. length row = n) nc \<Longrightarrow> index < n \<Longrightarrow>
   list_all (\<lambda>row. length row = n) (add_object numCoords object index nc)"
  unfolding add_object_def using add_object_fold [of numCoords nc n index object] by simp

lemma add_object_nth:
  "length nc = numCoords \<Longrightarrow> list_all (\<lambda>row. length row = n) nc \<Longrightarrow> index < n \<Longrightarrow>
   j < numCoords \<Longrightarrow> k < n \<Longrightarrow>
   add_object numCoords object index nc ! j ! k =
     (if k = index then nc ! j ! index + object ! j else nc ! j ! k)"
  unfolding add_object_def using add_object_fold [of numCoords nc n index object] by simp

lemma assign_fold:
  fixes objects :: "real list list"
  assumes wf: "wf_state numClusters numCoords numObjs s" and K: "0 < numClusters" and n: "n \<le> numObjs"
  defines "near \<equiv> \<lambda>i. nearest_index numClusters numCoords (objects ! i) (clusters s)"
  defines "t \<equiv> foldl (assign_object numClusters numCoords objects) s [0..<n]"
  shows "wf_state numClusters numCoords numObjs t \<and> clusters t = clusters s \<and>
    (\<forall>i<numObjs. membership t ! i = (if i < n then int (near i) else membership s ! i)) \<and>
    (\<forall>k<numClusters. newClusterSize t ! k =
        newClusterSize s ! k + int (length (filter (\<lambda>i. near i = k) [0..<n]))) \<and>
    (\<forall>j<numCoords. \<forall>k<numClusters. newClusters t ! j ! k =
        newClusters s ! j ! k + sum_list (map (\<lambda>i. objects ! i ! j) (filter (\<lambda>i. near i = k) [0..<n]))) \<and>
    (delta s = 0 \<longrightarrow>
       delta t = real (min (length (filter (\<lambda>i. membership s ! i \<noteq> int (near i)) [0..<n])) 16777216))"
  using n unfolding t_def
proof (induction n)
  case 0
  then show ?case using wf by simp
next
  case (Suc n)
  let ?t = "foldl (assign_object numClusters numCoords objects) s [0..<n]"
  have n: "n < numObjs" using Suc.prems by simp
  have ih: "wf_state numClusters numCoords numObjs ?t" "clusters ?t = clusters s"
    "\<And>i. i < numObjs \<Longrightarrow> membership ?t ! i = (if i < n then int (near i) else membership s ! i)"
    "\<And>k. k < numClusters \<Longrightarrow> newClusterSize ?t ! k =
        newClusterSize s ! k + int (length (filter (\<lambda>i. near i = k) [0..<n]))"
    "\<And>j k. j < numCoords \<Longrightarrow> k < numClusters \<Longrightarrow> newClusters ?t ! j ! k =
        newClusters s ! j ! k + sum_list (map (\<lambda>i. objects ! i ! j) (filter (\<lambda>i. near i = k) [0..<n]))"
    "delta s = 0 \<Longrightarrow>
       delta ?t = real (min (length (filter (\<lambda>i. membership s ! i \<noteq> int (near i)) [0..<n])) 16777216)"
    using Suc by auto
  have idx: "near n < numClusters" unfolding near_def by (rule nearest_index_less [OF K])
  have shape: "length (membership ?t) = numObjs" "length (newClusters ?t) = numCoords"
    "list_all (\<lambda>row. length row = numClusters) (newClusters ?t)"
    "length (newClusterSize ?t) = numClusters"
    "length (clusters ?t) = numCoords" "list_all (\<lambda>row. length row = numClusters) (clusters ?t)"
    using ih(1) by (auto simp: wf_state_def)
  define u where "u = assign_object numClusters numCoords objects ?t n"
  have step: "foldl (assign_object numClusters numCoords objects) s [0..<Suc n] = u"
    by (simp add: u_def)
  have u_m: "membership u = (membership ?t)[n := int (near n)]"
    and u_c: "clusters u = clusters s"
    and u_sz: "newClusterSize u = (newClusterSize ?t)[near n := newClusterSize ?t ! near n + 1]"
    and u_nc: "newClusters u = add_object numCoords (objects ! n) (near n) (newClusters ?t)"
    and u_d: "delta u = (if membership ?t ! n \<noteq> int (near n) then fl32 (delta ?t + 1) else delta ?t)"
    by (simp_all add: u_def assign_object_def Let_def ih(2) near_def)
  have wf_u: "wf_state numClusters numCoords numObjs u"
    unfolding wf_state_def u_m u_c u_sz u_nc
    using shape idx ih(2)
    by (auto intro: add_object_rows simp: add_object_length)
  have mem: "\<And>i. i < numObjs \<Longrightarrow> membership u ! i = (if i < Suc n then int (near i) else membership s ! i)"
    unfolding u_m using ih(3) shape(1) n by (auto simp: nth_list_update less_Suc_eq)
  have sz: "\<And>k. k < numClusters \<Longrightarrow> newClusterSize u ! k =
        newClusterSize s ! k + int (length (filter (\<lambda>i. near i = k) [0..<Suc n]))"
    unfolding u_sz using ih(4) shape(4) idx by (auto simp: nth_list_update)
  have nc: "\<And>j k. j < numCoords \<Longrightarrow> k < numClusters \<Longrightarrow> newClusters u ! j ! k =
        newClusters s ! j ! k + sum_list (map (\<lambda>i. objects ! i ! j) (filter (\<lambda>i. near i = k) [0..<Suc n]))"
    unfolding u_nc using ih(5) shape idx by (auto simp: add_object_nth)
  have d: "delta u = real (min (length (filter (\<lambda>i. membership s ! i \<noteq> int (near i)) [0..<Suc n])) 16777216)"
    if c: "delta s = 0"
  proof -
    let ?c = "length (filter (\<lambda>i. membership s ! i \<noteq> int (near i)) [0..<n])"
    have dt: "delta ?t = real (min ?c 16777216)" by (rule ih(6) [OF c])
    have up: "fl32 (real (min ?c 16777216) + 1) = real (min (Suc ?c) 16777216)"
    proof (cases "?c < 16777216")
      case True
      then have "fl32 (real (Suc ?c)) = real (Suc ?c)" by (intro fl32_nat) simp
      then show ?thesis using True by (simp add: add.commute min_def)
    next
      case False
      then show ?thesis using fl32_stuck by (simp add: min_def)
    qed
    show ?thesis unfolding u_d dt up using ih(3) [OF n] by simp
  qed
  show ?case unfolding step using wf_u u_c mem sz nc d by blast
qed

lemma wf_state_delta [simp]:
  "wf_state numClusters numCoords numObjs (s\<lparr>delta := d\<rparr>) = wf_state numClusters numCoords numObjs s"
  by (simp add: wf_state_def)

lemma pass_state_props:
  fixes objects :: "real list list"
  assumes wf: "wf_state numClusters numCoords numObjs s" and K: "0 < numClusters"
  defines "t \<equiv> pass_state numClusters numCoords numObjs objects s"
  shows "wf_state numClusters numCoords numObjs t" "clusters t = clusters s"
    "\<And>i. i < numObjs \<Longrightarrow>
       membership t ! i = int (nearest_index numClusters numCoords (objects ! i) (clusters s))"
    "\<And>k. k < numClusters \<Longrightarrow> newClusterSize t ! k =
        newClusterSize s ! k + int (member_count (membership t) numObjs k)"
    "\<And>j k. j < numCoords \<Longrightarrow> k < numClusters \<Longrightarrow> newClusters t ! j ! k =
        newClusters s ! j ! k + coord_sum objects (members (membership t) numObjs k) j"
    "delta t = real (min (changed (membership s) (membership t) numObjs) 16777216)"
proof -
  let ?near = "\<lambda>i. nearest_index numClusters numCoords (objects ! i) (clusters s)"
  have wf0: "wf_state numClusters numCoords numObjs (s\<lparr>delta := 0\<rparr>)" using wf by simp
  note f = assign_fold [OF wf0 K order_refl, of objects,
      folded assignment_pass_def pass_state_def t_def, simplified]
  show "wf_state numClusters numCoords numObjs t" "clusters t = clusters s" using f by auto
  show m: "\<And>i. i < numObjs \<Longrightarrow> membership t ! i = int (?near i)" using f by auto
  have mem: "members (membership t) numObjs k = filter (\<lambda>i. ?near i = k) [0..<numObjs]" for k
    unfolding members_def by (rule filter_cong) (auto simp: m)
  show "\<And>k. k < numClusters \<Longrightarrow> newClusterSize t ! k =
        newClusterSize s ! k + int (member_count (membership t) numObjs k)"
    unfolding member_count_def mem using f by auto
  show "\<And>j k. j < numCoords \<Longrightarrow> k < numClusters \<Longrightarrow> newClusters t ! j ! k =
        newClusters s ! j ! k + coord_sum objects (members (membership t) numObjs k) j"
    unfolding coord_sum_def mem using f by auto
  have "changed (membership s) (membership t) numObjs =
        length (filter (\<lambda>i. membership s ! i \<noteq> int (?near i)) [0..<numObjs])"
    unfolding changed_def by (rule arg_cong [where f = length], rule filter_cong) (auto simp: m)
  then show "delta t = real (min (changed (membership s) (membership t) numObjs) 16777216)"
    using f by auto
qed

lemma pass_state_sum:
  fixes objects :: "real list list"
  assumes wf: "wf_state numClusters numCoords numObjs s" and K: "0 < numClusters" and n: "n \<le> numObjs"
  shows "sum_list (newClusterSize (foldl (assign_object numClusters numCoords objects) s [0..<n])) =
         sum_list (newClusterSize s) + int n"
  using n
proof (induction n)
  case 0
  then show ?case by simp
next
  case (Suc n)
  let ?t = "foldl (assign_object numClusters numCoords objects) s [0..<n]"
  have n: "n \<le> numObjs" using Suc.prems by simp
  have "wf_state numClusters numCoords numObjs ?t"
    using assign_fold [OF wf K n, of objects] by simp
  then have len: "length (newClusterSize ?t) = numClusters" by (simp add: wf_state_def)
  have idx: "nearest_index numClusters numCoords (objects ! n) (clusters ?t) < numClusters"
    by (rule nearest_index_less [OF K])
  have step: "foldl (assign_object numClusters numCoords objects) s [0..<Suc n] =
      assign_object numClusters numCoords objects ?t n" by simp
  have sz: "newClusterSize (assign_object numClusters numCoords objects ?t n) =
      (newClusterSize ?t)[nearest_index numClusters numCoords (objects ! n) (clusters ?t) :=
         newClusterSize ?t ! nearest_index numClusters numCoords (objects ! n) (clusters ?t) + 1]"
    by (simp add: assign_object_def Let_def)
  show ?case
    unfolding step sz using Suc.IH [OF n] len idx by (simp add: sum_list_incr)
qed

subsection \<open>The centroid update\<close>

lemma average_coord_fold:
  assumes wf: "wf_state numClusters numCoords numObjs s" and i: "i < numClusters" and m: "m \<le> numCoords"
  defines "t \<equiv> foldl (average_coord i) s [0..<m]"
  shows "wf_state numClusters numCoords numObjs t \<and> membership t = membership s \<and>
    delta t = delta s \<and> newClusterSize t = newClusterSize s \<and>
    (\<forall>j<numCoords. \<forall>k<numClusters. clusters t ! j ! k =
        (if j < m \<and> k = i \<and> 1 < newClusterSize s ! i
         then newClusters s ! j ! i / real_of_int (newClusterSize s ! i) else clusters s ! j ! k)) \<and>
    (\<forall>j<numCoords. \<forall>k<numClusters. newClusters t ! j ! k =
        (if j < m \<and> k = i then 0 else newClusters s ! j ! k))"
  using m unfolding t_def
proof (induction m)
  case 0
  then show ?case using wf by simp
next
  case (Suc m)
  let ?t = "foldl (average_coord i) s [0..<m]"
  have m: "m < numCoords" using Suc.prems by simp
  have ih: "wf_state numClusters numCoords numObjs ?t" "membership ?t = membership s"
    "delta ?t = delta s" "newClusterSize ?t = newClusterSize s"
    "\<And>j k. j < numCoords \<Longrightarrow> k < numClusters \<Longrightarrow> clusters ?t ! j ! k =
        (if j < m \<and> k = i \<and> 1 < newClusterSize s ! i
         then newClusters s ! j ! i / real_of_int (newClusterSize s ! i) else clusters s ! j ! k)"
    "\<And>j k. j < numCoords \<Longrightarrow> k < numClusters \<Longrightarrow> newClusters ?t ! j ! k =
        (if j < m \<and> k = i then 0 else newClusters s ! j ! k)"
    using Suc by auto
  have shape: "length (membership ?t) = numObjs" "length (newClusters ?t) = numCoords"
    "list_all (\<lambda>row. length row = numClusters) (newClusters ?t)"
    "length (newClusterSize ?t) = numClusters"
    "length (clusters ?t) = numCoords" "list_all (\<lambda>row. length row = numClusters) (clusters ?t)"
    using ih(1) by (auto simp: wf_state_def)
  have rows: "length (clusters ?t ! m) = numClusters" "length (newClusters ?t ! m) = numClusters"
    using shape m by (auto simp: list_all_length)
  define u where "u = average_coord i ?t m"
  have step: "foldl (average_coord i) s [0..<Suc m] = u"
    by (simp add: u_def)
  have u_m: "membership u = membership s" and u_d: "delta u = delta s"
    and u_sz: "newClusterSize u = newClusterSize s"
    and u_c: "clusters u = (if 1 < newClusterSize s ! i
            then (clusters ?t)[m := (clusters ?t ! m)[i := newClusters ?t ! m ! i / real_of_int (newClusterSize s ! i)]]
            else clusters ?t)"
    and u_nc: "newClusters u = (newClusters ?t)[m := (newClusters ?t ! m)[i := 0]]"
    by (simp_all add: u_def average_coord_def ih)
  have wf_u: "wf_state numClusters numCoords numObjs u"
    unfolding wf_state_def u_m u_c u_sz u_nc
    using shape rows wf by (auto intro!: list_all_update simp: wf_state_def)
  have c: "\<And>j k. j < numCoords \<Longrightarrow> k < numClusters \<Longrightarrow> clusters u ! j ! k =
        (if j < Suc m \<and> k = i \<and> 1 < newClusterSize s ! i
         then newClusters s ! j ! i / real_of_int (newClusterSize s ! i) else clusters s ! j ! k)"
    unfolding u_c using ih(5) ih(6) shape rows m i by (auto simp: nth_list_update less_Suc_eq)
  have nc: "\<And>j k. j < numCoords \<Longrightarrow> k < numClusters \<Longrightarrow> newClusters u ! j ! k =
        (if j < Suc m \<and> k = i then 0 else newClusters s ! j ! k)"
    unfolding u_nc using ih(6) shape rows m i by (auto simp: nth_list_update less_Suc_eq)
  show ?case unfolding step using wf_u u_m u_d u_sz c nc by blast
qed

lemma average_cluster_props:
  assumes wf: "wf_state numClusters numCoords numObjs s" and i: "i < numClusters"
  defines "t \<equiv> average_cluster numCoords s i"
  shows "wf_state numClusters numCoords numObjs t \<and> membership t = membership s \<and>
    delta t = delta s \<and> newClusterSize t = (newClusterSize s)[i := 0] \<and>
    (\<forall>j<numCoords. \<forall>k<numClusters. clusters t ! j ! k =
        (if k = i \<and> 1 < newClusterSize s ! i
         then newClusters s ! j ! i / real_of_int (newClusterSize s ! i) else clusters s ! j ! k)) \<and>
    (\<forall>j<numCoords. \<forall>k<numClusters. newClusters t ! j ! k =
        (if k = i then 0 else newClusters s ! j ! k))"
proof -
  let ?t = "foldl (average_coord i) s [0..<numCoords]"
  have f: "wf_state numClusters numCoords numObjs ?t" "membership ?t = membership s"
    "delta ?t = delta s" "newClusterSize ?t = newClusterSize s"
    "\<And>j k. j < numCoords \<Longrightarrow> k < numClusters \<Longrightarrow> clusters ?t ! j ! k =
        (if j < numCoords \<and> k = i \<and> 1 < newClusterSize s ! i
         then newClusters s ! j ! i / real_of_int (newClusterSize s ! i) else clusters s ! j ! k)"
    "\<And>j k. j < numCoords \<Longrightarrow> k < numClusters \<Longrightarrow> newClusters ?t ! j ! k =
        (if j < numCoords \<and> k = i then 0 else newClusters s ! j ! k)"
    using average_coord_fold [OF wf i, of numCoords] by auto
  have t: "t = ?t\<lparr>newClusterSize := (newClusterSize ?t)[i := 0]\<rparr>"
    by (simp add: t_def average_cluster_def Let_def)
  show ?thesis unfolding t using f by (auto simp: wf_state_def)
qed

lemma update_fold:
  assumes wf: "wf_state numClusters numCoords numObjs s" and m: "m \<le> numClusters"
  defines "t \<equiv> foldl (average_cluster numCoords) s [0..<m]"
  shows "wf_state numClusters numCoords numObjs t \<and> membership t = membership s \<and>
    delta t = delta s \<and>
    (\<forall>k<numClusters. newClusterSize t ! k = (if k < m then 0 else newClusterSize s ! k)) \<and>
    (\<forall>j<numCoords. \<forall>k<numClusters. clusters t ! j ! k =
        (if k < m \<and> 1 < newClusterSize s ! k
         then newClusters s ! j ! k / real_of_int (newClusterSize s ! k) else clusters s ! j ! k)) \<and>
    (\<forall>j<numCoords. \<forall>k<numClusters. newClusters t ! j ! k =
        (if k < m then 0 else newClusters s ! j ! k))"
  using m unfolding t_def
proof (induction m)
  case 0
  then show ?case using wf by simp
next
  case (Suc m)
  let ?t = "foldl (average_cluster numCoords) s [0..<m]"
  have m: "m < numClusters" using Suc.prems by simp
  have ih: "wf_state numClusters numCoords numObjs ?t" "membership ?t = membership s"
    "delta ?t = delta s"
    "\<And>k. k < numClusters \<Longrightarrow> newClusterSize ?t ! k = (if k < m then 0 else newClusterSize s ! k)"
    "\<And>j k. j < numCoords \<Longrightarrow> k < numClusters \<Longrightarrow> clusters ?t ! j ! k =
        (if k < m \<and> 1 < newClusterSize s ! k
         then newClusters s ! j ! k / real_of_int (newClusterSize s ! k) else clusters s ! j ! k)"
    "\<And>j k. j < numCoords \<Longrightarrow> k < numClusters \<Longrightarrow> newClusters ?t ! j ! k =
        (if k < m then 0 else newClusters s ! j ! k)"
    using Suc by auto
  define u where "u = average_cluster numCoords ?t m"
  have step: "foldl (average_cluster numCoords) s [0..<Suc m] = u"
    by (simp add: u_def)
  have u: "wf_state numClusters numCoords numObjs u" "membership u = membership ?t"
    "delta u = delta ?t" "newClusterSize u = (newClusterSize ?t)[m := 0]"
    "\<And>j k. j < numCoords \<Longrightarrow> k < numClusters \<Longrightarrow> clusters u ! j ! k =
        (if k = m \<and> 1 < newClusterSize ?t ! m
         then newClusters ?t ! j ! m / real_of_int (newClusterSize ?t ! m) else clusters ?t ! j ! k)"
    "\<And>j k. j < numCoords \<Longrightarrow> k < numClusters \<Longrightarrow> newClusters u ! j ! k =
        (if k = m then 0 else newClusters ?t ! j ! k)"
    using average_cluster_props [OF ih(1) m] unfolding u_def by auto
  have len: "length (newClusterSize ?t) = numClusters" using ih(1) by (simp add: wf_state_def)
  have sz: "\<And>k. k < numClusters \<Longrightarrow> newClusterSize u ! k = (if k < Suc m then 0 else newClusterSize s ! k)"
    unfolding u(4) using ih(4) len m by (auto simp: nth_list_update less_Suc_eq)
  have c: "\<And>j k. j < numCoords \<Longrightarrow> k < numClusters \<Longrightarrow> clusters u ! j ! k =
        (if k < Suc m \<and> 1 < newClusterSize s ! k
         then newClusters s ! j ! k / real_of_int (newClusterSize s ! k) else clusters s ! j ! k)"
    using u(5) ih(4) ih(5) ih(6) m by (auto simp: less_Suc_eq)
  have nc: "\<And>j k. j < numCoords \<Longrightarrow> k < numClusters \<Longrightarrow> newClusters u ! j ! k =
        (if k < Suc m then 0 else newClusters s ! j ! k)"
    using u(6) ih(6) m by (auto simp: less_Suc_eq)
  show ?case unfolding step using u(1) u(2) u(3) ih(2) ih(3) sz c nc by simp
qed

lemma update_centroids_props:
  assumes wf: "wf_state numClusters numCoords numObjs s"
  defines "t \<equiv> update_centroids numClusters numCoords s"
  shows "wf_state numClusters numCoords numObjs t" "membership t = membership s"
    "delta t = delta s"
    "newClusterSize t = replicate numClusters 0"
    "newClusters t = replicate numCoords (replicate numClusters 0)"
    "\<And>j k. j < numCoords \<Longrightarrow> k < numClusters \<Longrightarrow> clusters t ! j ! k =
        (if 1 < newClusterSize s ! k
         then newClusters s ! j ! k / real_of_int (newClusterSize s ! k) else clusters s ! j ! k)"
proof -
  note f = update_fold [OF wf, of numClusters, folded update_centroids_def t_def, simplified]
  show w: "wf_state numClusters numCoords numObjs t" and "membership t = membership s"
    and "delta t = delta s" using f by auto
  show "newClusterSize t = replicate numClusters 0"
    by (rule replicate_eq_nth) (use f w in \<open>auto simp: wf_state_def\<close>)
  show "newClusters t = replicate numCoords (replicate numClusters 0)"
    by (rule replicate_rows_eq) (use f w in \<open>auto simp: wf_state_def\<close>)
  show "\<And>j k. j < numCoords \<Longrightarrow> k < numClusters \<Longrightarrow> clusters t ! j ! k =
        (if 1 < newClusterSize s ! k
         then newClusters s ! j ! k / real_of_int (newClusterSize s ! k) else clusters s ! j ! k)"
    using f by auto
qed

subsection \<open>One iteration and the run\<close>

lemma init_state_wf:
  "wf_input objects numCoords numObjs numClusters cl \<Longrightarrow>
   wf_state numClusters numCoords numObjs (init_state numClusters numCoords numObjs cl)"
  by (simp add: wf_input_def wf_state_def init_state_def list_all_length)

lemma init_state_zero: "zero_acc numClusters numCoords (init_state numClusters numCoords numObjs cl)"
  by (simp add: zero_acc_def init_state_def)

lemma iteration_unfold:
  "iteration numClusters numCoords numObjs objects s =
     (update_centroids numClusters numCoords (pass_state numClusters numCoords numObjs objects s))
       \<lparr>delta := fl32 (delta (update_centroids numClusters numCoords (pass_state numClusters numCoords numObjs objects s)) / fl32 (real numObjs))\<rparr>"
  by (simp add: iteration_def pass_state_def Let_def)

lemma iteration_props:
  fixes objects :: "real list list"
  assumes wf: "wf_state numClusters numCoords numObjs s" and K: "0 < numClusters"
  defines "p \<equiv> pass_state numClusters numCoords numObjs objects s"
  defines "t \<equiv> iteration numClusters numCoords numObjs objects s"
  shows "wf_state numClusters numCoords numObjs t" "zero_acc numClusters numCoords t"
    "membership t = membership p"
    "delta t = fl32 (real (min (changed (membership s) (membership t) numObjs) 16777216) / fl32 (real numObjs))"
    "\<And>j k. j < numCoords \<Longrightarrow> k < numClusters \<Longrightarrow> clusters t ! j ! k =
        (if 1 < newClusterSize p ! k
         then newClusters p ! j ! k / real_of_int (newClusterSize p ! k) else clusters s ! j ! k)"
proof -
  note p = pass_state_props [OF wf K, where objects = objects, folded p_def]
  note u = update_centroids_props [OF p(1)]
  have t: "t = (update_centroids numClusters numCoords p)
       \<lparr>delta := fl32 (delta (update_centroids numClusters numCoords p) / fl32 (real numObjs))\<rparr>"
    unfolding t_def p_def by (rule iteration_unfold)
  show "wf_state numClusters numCoords numObjs t" unfolding t using u(1) by simp
  show "zero_acc numClusters numCoords t" unfolding t zero_acc_def using u(4,5) by simp
  show m: "membership t = membership p" unfolding t using u(2) by simp
  show "delta t = fl32 (real (min (changed (membership s) (membership t) numObjs) 16777216) / fl32 (real numObjs))"
    unfolding m unfolding t using u(3) p(6) by simp
  show "\<And>j k. j < numCoords \<Longrightarrow> k < numClusters \<Longrightarrow> clusters t ! j ! k =
        (if 1 < newClusterSize p ! k
         then newClusters p ! j ! k / real_of_int (newClusterSize p ! k) else clusters s ! j ! k)"
    unfolding t using u(6) p(2) by simp
qed

lemma run_state_inv:
  assumes "wf_input objects numCoords numObjs numClusters cl"
  shows "wf_state numClusters numCoords numObjs (run_state objects numCoords numObjs numClusters cl n) \<and>
         zero_acc numClusters numCoords (run_state objects numCoords numObjs numClusters cl n)"
proof (induction n)
  case 0
  show ?case using init_state_wf [OF assms] init_state_zero by simp
next
  case (Suc n)
  have K: "0 < numClusters" using assms by (simp add: wf_input_def)
  show ?case unfolding run_state.simps using iteration_props(1,2) [OF _ K] Suc by blast
qed

lemma run_state_count:
  fixes n :: nat
  assumes "wf_input objects numCoords numObjs numClusters cl" and k: "k < numClusters"
  defines "s \<equiv> run_state objects numCoords numObjs numClusters cl n"
  defines "p \<equiv> pass_state numClusters numCoords numObjs objects s"
  defines "t \<equiv> run_state objects numCoords numObjs numClusters cl (Suc n)"
  shows "newClusterSize p ! k = int (member_count (membership t) numObjs k)"
    and "\<And>j. j < numCoords \<Longrightarrow> newClusters p ! j ! k = coord_sum objects (members (membership t) numObjs k) j"
    and "\<And>j. j < numCoords \<Longrightarrow> clusters t ! j ! k =
        (if 1 < newClusterSize p ! k
         then newClusters p ! j ! k / real_of_int (newClusterSize p ! k) else clusters s ! j ! k)"
    and "zero_acc numClusters numCoords t"
    and "delta t = fl32 (real (min (changed (membership s) (membership t) numObjs) 16777216) / fl32 (real numObjs))"
proof -
  have K: "0 < numClusters" using assms(1) by (simp add: wf_input_def)
  have wf: "wf_state numClusters numCoords numObjs s" and z: "zero_acc numClusters numCoords s"
    using run_state_inv [OF assms(1), of n] by (simp_all add: s_def)
  note p = pass_state_props [OF wf K, where objects = objects, folded p_def]
  note i = iteration_props [OF wf K, where objects = objects, folded p_def]
  have t: "t = iteration numClusters numCoords numObjs objects s"
    unfolding t_def s_def by simp
  have m: "membership t = membership p" unfolding t by (rule i(3))
  show "newClusterSize p ! k = int (member_count (membership t) numObjs k)"
    unfolding m using p(4) [OF k] z k by (simp add: zero_acc_def)
  show "\<And>j. j < numCoords \<Longrightarrow> newClusters p ! j ! k = coord_sum objects (members (membership t) numObjs k) j"
    unfolding m using p(5) [OF _ k] z k by (simp add: zero_acc_def)
  show "\<And>j. j < numCoords \<Longrightarrow> clusters t ! j ! k =
        (if 1 < newClusterSize p ! k
         then newClusters p ! j ! k / real_of_int (newClusterSize p ! k) else clusters s ! j ! k)"
    unfolding t using i(5) [OF _ k] by simp
  show "zero_acc numClusters numCoords t" unfolding t by (rule i(2))
  show "delta t = fl32 (real (min (changed (membership s) (membership t) numObjs) 16777216) / fl32 (real numObjs))"
    unfolding t by (rule i(4))
qed

subsection \<open>The centroid update over a run\<close>

text \<open>
  In every iteration of a run of the improved version on a well-formed input, a cluster
  with at most one member keeps its centroid, and a cluster with more members gets the
  mean of its members (the sums and the quotient taken exactly); the accumulators are
  zero afterwards.
\<close>

lemma small_cluster_keeps_centroid:
  assumes "wf_input objects numCoords numObjs numClusters cl"
    and "k < numClusters" and "j < numCoords"
    and "member_count (membership (run_state objects numCoords numObjs numClusters cl (Suc n))) numObjs k \<le> 1"
  shows "clusters (run_state objects numCoords numObjs numClusters cl (Suc n)) ! j ! k =
         clusters (run_state objects numCoords numObjs numClusters cl n) ! j ! k"
  using run_state_count(1) [OF assms(1,2), where n = n]
    run_state_count(3) [OF assms(1,2,3), where n = n] assms(4) by simp

lemma large_cluster_gets_mean:
  assumes "wf_input objects numCoords numObjs numClusters cl"
    and "k < numClusters" and "j < numCoords"
    and "1 < member_count (membership (run_state objects numCoords numObjs numClusters cl (Suc n))) numObjs k"
  shows "clusters (run_state objects numCoords numObjs numClusters cl (Suc n)) ! j ! k =
           coord_sum objects (members (membership (run_state objects numCoords numObjs numClusters cl (Suc n))) numObjs k) j
           / real (member_count (membership (run_state objects numCoords numObjs numClusters cl (Suc n))) numObjs k) \<and>
         zero_acc numClusters numCoords (run_state objects numCoords numObjs numClusters cl (Suc n))"
  using run_state_count(1,4) [OF assms(1,2), where n = n]
    run_state_count(2,3) [OF assms(1,2,3), where n = n] assms(4)
  by simp

subsection \<open>The loop\<close>

lemma kmeans_loop_bounds:
  "loop \<le> 500 \<Longrightarrow>
   passes < fst (snd (kmeans_loop numClusters numCoords numObjs objects threshold loop passes s)) \<and>
   fst (snd (kmeans_loop numClusters numCoords numObjs objects threshold loop passes s)) + loop \<le> passes + 501 \<and>
   fst (kmeans_loop numClusters numCoords numObjs objects threshold loop passes s) \<le> 501"
proof (induction numClusters numCoords numObjs objects threshold loop passes s rule: kmeans_loop.induct)
  case (1 numClusters numCoords numObjs objects threshold loop passes s)
  let ?s' = "iteration numClusters numCoords numObjs objects s"
  show ?case
  proof (cases "threshold < delta ?s' \<and> loop < 500")
    case True
    then have "kmeans_loop numClusters numCoords numObjs objects threshold loop passes s =
        kmeans_loop numClusters numCoords numObjs objects threshold (loop + 1) (passes + 1) ?s'"
      by (subst kmeans_loop.simps) (simp add: Let_def)
    moreover have "passes + 1 < fst (snd (kmeans_loop numClusters numCoords numObjs objects threshold (loop + 1) (passes + 1) ?s')) \<and>
      fst (snd (kmeans_loop numClusters numCoords numObjs objects threshold (loop + 1) (passes + 1) ?s')) + (loop + 1) \<le> passes + 1 + 501 \<and>
      fst (kmeans_loop numClusters numCoords numObjs objects threshold (loop + 1) (passes + 1) ?s') \<le> 501"
      using "1.IH" [OF refl] True by simp
    ultimately show ?thesis by simp
  next
    case False
    then show ?thesis using "1.prems"
      by (subst (1 2 3) kmeans_loop.simps) (auto simp: Let_def)
  qed
qed

lemma kmeans_loop_state:
  "snd (snd (kmeans_loop numClusters numCoords numObjs objects threshold loop passes s)) =
   (iteration numClusters numCoords numObjs objects ^^
      (fst (snd (kmeans_loop numClusters numCoords numObjs objects threshold loop passes s)) - passes)) s \<and>
   passes < fst (snd (kmeans_loop numClusters numCoords numObjs objects threshold loop passes s))"
proof (induction numClusters numCoords numObjs objects threshold loop passes s rule: kmeans_loop.induct)
  case (1 numClusters numCoords numObjs objects threshold loop passes s)
  let ?f = "iteration numClusters numCoords numObjs objects"
  let ?s' = "?f s"
  show ?case
  proof (cases "threshold < delta ?s' \<and> loop < 500")
    case True
    let ?r = "kmeans_loop numClusters numCoords numObjs objects threshold (loop + 1) (passes + 1) ?s'"
    have eq: "kmeans_loop numClusters numCoords numObjs objects threshold loop passes s = ?r"
      using True by (subst kmeans_loop.simps) (simp add: Let_def)
    have ih: "snd (snd ?r) = (?f ^^ (fst (snd ?r) - (passes + 1))) ?s'" "passes + 1 < fst (snd ?r)"
      using "1.IH" [OF refl] True by simp_all
    have "fst (snd ?r) - passes = Suc (fst (snd ?r) - (passes + 1))" using ih(2) by simp
    then have "(?f ^^ (fst (snd ?r) - passes)) s = (?f ^^ (fst (snd ?r) - (passes + 1))) ?s'"
      by (simp add: funpow_swap1)
    then show ?thesis unfolding eq using ih by simp
  next
    case False
    then show ?thesis
      by (subst (1 2 3) kmeans_loop.simps) (auto simp: Let_def)
  qed
qed

lemma run_state_funpow:
  "run_state objects numCoords numObjs numClusters cl n =
   (iteration numClusters numCoords numObjs objects ^^ n) (init_state numClusters numCoords numObjs cl)"
  by (induction n) simp_all

lemma kmeans_run_state:
  "snd (snd (kmeans_run objects numCoords numObjs numClusters threshold cl)) =
   run_state objects numCoords numObjs numClusters cl
     (passes_run objects numCoords numObjs numClusters threshold cl)"
  unfolding passes_run_def kmeans_run_def run_state_funpow
  using kmeans_loop_state [of numClusters numCoords numObjs objects threshold 0 0] by simp

lemma kmeans_loop_cap:
  assumes step: "\<And>s. I s \<Longrightarrow> I (iteration numClusters numCoords numObjs objects s) \<and>
                     threshold < delta (iteration numClusters numCoords numObjs objects s)"
  shows "I s \<Longrightarrow> loop \<le> 500 \<Longrightarrow>
     fst (snd (kmeans_loop numClusters numCoords numObjs objects threshold loop passes s)) + loop = passes + 501"
proof (induction "500 - loop" arbitrary: loop passes s)
  case 0
  let ?s' = "iteration numClusters numCoords numObjs objects s"
  have "threshold < delta ?s'" using "0.prems"(1) step by auto
  then show ?case using 0
    by (subst kmeans_loop.simps) (simp add: Let_def)
next
  case (Suc d)
  let ?s' = "iteration numClusters numCoords numObjs objects s"
  have s': "I ?s'" "threshold < delta ?s'" using Suc.prems(1) step by auto
  have lt: "loop < 500" using Suc.hyps(2) by simp
  have "kmeans_loop numClusters numCoords numObjs objects threshold loop passes s =
      kmeans_loop numClusters numCoords numObjs objects threshold (loop + 1) (passes + 1) ?s'"
    using s' lt by (subst kmeans_loop.simps) (simp add: Let_def)
  moreover have "fst (snd (kmeans_loop numClusters numCoords numObjs objects threshold (loop + 1) (passes + 1) ?s'))
      + (loop + 1) = passes + 1 + 501"
    by (rule Suc.hyps(1)) (use Suc.hyps(2) s' lt in auto)
  ultimately show ?case by simp
qed

lemma passes_run_bounds:
  "1 \<le> passes_run objects numCoords numObjs numClusters threshold cl \<and>
   passes_run objects numCoords numObjs numClusters threshold cl \<le> 501"
  using kmeans_loop_bounds [of 0 0 numClusters numCoords numObjs objects threshold
      "init_state numClusters numCoords numObjs cl"]
  by (simp add: passes_run_def kmeans_run_def)

text \<open>
  A pass that the loop runs is its last one exactly when \<^verbatim>\<open>delta\<close> is at most the
  threshold after it, or when it is pass 501.
\<close>

lemma kmeans_loop_exit:
  "loop \<le> 500 \<Longrightarrow> passes \<le> m \<Longrightarrow>
   m < fst (snd (kmeans_loop numClusters numCoords numObjs objects threshold loop passes s)) \<Longrightarrow>
   (Suc m = fst (snd (kmeans_loop numClusters numCoords numObjs objects threshold loop passes s)) \<longleftrightarrow>
    delta ((iteration numClusters numCoords numObjs objects ^^ (Suc m - passes)) s) \<le> threshold \<or>
    loop + (m - passes) = 500)"
proof (induction numClusters numCoords numObjs objects threshold loop passes s arbitrary: m
    rule: kmeans_loop.induct)
  case (1 numClusters numCoords numObjs objects threshold loop passes s)
  let ?f = "iteration numClusters numCoords numObjs objects"
  let ?s' = "?f s"
  show ?case
  proof (cases "threshold < delta ?s' \<and> loop < 500")
    case True
    let ?r = "kmeans_loop numClusters numCoords numObjs objects threshold (loop + 1) (passes + 1) ?s'"
    have eq: "kmeans_loop numClusters numCoords numObjs objects threshold loop passes s = ?r"
      using True by (subst kmeans_loop.simps) (simp add: Let_def)
    have gt: "passes + 1 < fst (snd ?r)"
      using kmeans_loop_state [of numClusters numCoords numObjs objects threshold "loop + 1" "passes + 1" ?s']
      by simp
    show ?thesis
    proof (cases "m = passes")
      case True
      then show ?thesis unfolding eq using gt \<open>threshold < delta ?s' \<and> loop < 500\<close> by simp
    next
      case False
      then have m: "passes + 1 \<le> m" using "1.prems"(2) by simp
      have lt: "m < fst (snd ?r)" using "1.prems"(3) unfolding eq .
      have "Suc m - passes = Suc (Suc m - (passes + 1))" using m by simp
      then have fp: "(?f ^^ (Suc m - passes)) s = (?f ^^ (Suc m - (passes + 1))) ?s'"
        by (simp add: funpow_swap1)
      have lp: "loop + (m - passes) = loop + 1 + (m - (passes + 1))" using m by simp
      show ?thesis unfolding eq fp lp
        using "1.IH" [OF refl _ _ _ m lt] True by simp
    qed
  next
    case False
    have eq: "fst (snd (kmeans_loop numClusters numCoords numObjs objects threshold loop passes s)) = passes + 1"
      using False by (subst kmeans_loop.simps) (auto simp: Let_def)
    have m: "m = passes" using "1.prems"(2,3) unfolding eq by simp
    show ?thesis unfolding eq m using False "1.prems"(1) by auto
  qed
qed

lemma passes_run_exit:
  assumes "n < passes_run objects numCoords numObjs numClusters threshold cl"
  shows "Suc n = passes_run objects numCoords numObjs numClusters threshold cl \<longleftrightarrow>
         delta (run_state objects numCoords numObjs numClusters cl (Suc n)) \<le> threshold \<or> n = 500"
  using kmeans_loop_exit [of 0 0 n numClusters numCoords numObjs objects threshold
      "init_state numClusters numCoords numObjs cl"] assms
  unfolding passes_run_def kmeans_run_def run_state_funpow by simp

subsection \<open>The counter \<^verbatim>\<open>delta\<close>\<close>

lemma changed_le: "changed m m' numObjs \<le> numObjs"
  unfolding changed_def using length_filter_le [of _ "[0..<numObjs]"] by simp

text \<open>
  With at most \<open>2\<^sup>2\<^sup>4\<close> objects, in every pass that the loop runs: each membership entry
  becomes the index the scan computes; \<^verbatim>\<open>delta\<close> ends as the float nearest to the
  number of objects for which that index differs from the entry before the pass, divided
  by \<^verbatim>\<open>numObjs\<close> (whatever \<^verbatim>\<open>delta\<close> was before the pass); and the pass is the last
  one exactly when that value is at most the threshold, or at the cap.
\<close>

lemma delta_counts_and_exit:
  fixes n :: nat
  assumes wf: "wf_input objects numCoords numObjs numClusters cl"
    and N: "numObjs \<le> 16777216"
    and n: "n < passes_run objects numCoords numObjs numClusters threshold cl"
    and i: "i < numObjs"
  shows "membership (run_state objects numCoords numObjs numClusters cl (Suc n)) ! i =
           int (nearest_index numClusters numCoords (objects ! i)
                  (clusters (run_state objects numCoords numObjs numClusters cl n))) \<and>
         delta (run_state objects numCoords numObjs numClusters cl (Suc n)) =
           fl32 (real (length (filter
                   (\<lambda>i. membership (run_state objects numCoords numObjs numClusters cl n) ! i \<noteq>
                        int (nearest_index numClusters numCoords (objects ! i)
                               (clusters (run_state objects numCoords numObjs numClusters cl n))))
                   [0..<numObjs])) / real numObjs) \<and>
         (Suc n = passes_run objects numCoords numObjs numClusters threshold cl \<longleftrightarrow>
          delta (run_state objects numCoords numObjs numClusters cl (Suc n)) \<le> threshold \<or> n = 500)"
proof (intro conjI)
  let ?s = "run_state objects numCoords numObjs numClusters cl n"
  let ?t = "run_state objects numCoords numObjs numClusters cl (Suc n)"
  let ?new = "\<lambda>i. int (nearest_index numClusters numCoords (objects ! i) (clusters ?s))"
  have K: "0 < numClusters" using wf by (simp add: wf_input_def)
  have wfs: "wf_state numClusters numCoords numObjs ?s" using run_state_inv [OF wf, of n] by simp
  have t: "?t = iteration numClusters numCoords numObjs objects ?s" by simp
  have m: "membership ?t ! i = ?new i" if "i < numObjs" for i
    unfolding t iteration_props(3) [OF wfs K]
    using pass_state_props(3) [OF wfs K that] .
  show "membership ?t ! i = ?new i" using m [OF i] .
  have c: "changed (membership ?s) (membership ?t) numObjs =
           length (filter (\<lambda>i. membership ?s ! i \<noteq> ?new i) [0..<numObjs])"
    unfolding changed_def
    by (rule arg_cong [where f = length], rule filter_cong) (auto simp: m simp del: run_state.simps)
  have "delta ?t = fl32 (real (min (changed (membership ?s) (membership ?t) numObjs) 16777216) / fl32 (real numObjs))"
    using run_state_count(5) [OF wf K, where n = n] .
  also have "min (changed (membership ?s) (membership ?t) numObjs) 16777216 =
             changed (membership ?s) (membership ?t) numObjs"
    using changed_le [of "membership ?s" "membership ?t" numObjs] N by simp
  also have "fl32 (real numObjs) = real numObjs" using N by (rule fl32_nat)
  finally show "delta ?t = fl32 (real (length (filter (\<lambda>i. membership ?s ! i \<noteq> ?new i) [0..<numObjs])) / real numObjs)"
    unfolding c .
  show "Suc n = passes_run objects numCoords numObjs numClusters threshold cl \<longleftrightarrow>
        delta ?t \<le> threshold \<or> n = 500"
    using n by (rule passes_run_exit)
qed

text \<open>
  The first pass changes every membership entry (from -1 to an index), and the float
  counter ends it as the number of objects or as \<open>2\<^sup>2\<^sup>4\<close>, whichever is less.
\<close>

lemma first_pass_changes_all:
  assumes wf: "wf_input objects numCoords numObjs numClusters cl"
  shows "changed (membership (init_state numClusters numCoords numObjs cl))
           (membership (run_state objects numCoords numObjs numClusters cl 1)) numObjs = numObjs"
    and "delta (pass_state numClusters numCoords numObjs objects (init_state numClusters numCoords numObjs cl)) =
           real (min numObjs 16777216)"
    and "delta (run_state objects numCoords numObjs numClusters cl 1) =
           fl32 (real (min numObjs 16777216) / fl32 (real numObjs))"
proof -
  let ?s = "init_state numClusters numCoords numObjs cl"
  let ?p = "pass_state numClusters numCoords numObjs objects ?s"
  let ?t = "run_state objects numCoords numObjs numClusters cl 1"
  have K: "0 < numClusters" using wf by (simp add: wf_input_def)
  have wfs: "wf_state numClusters numCoords numObjs ?s" using init_state_wf [OF wf] .
  have t: "?t = iteration numClusters numCoords numObjs objects ?s" by simp
  have mt: "membership ?t = membership ?p" unfolding t by (rule iteration_props(3) [OF wfs K])
  have m: "membership ?s ! i \<noteq> membership ?p ! i" if "i < numObjs" for i
    using pass_state_props(3) [OF wfs K that, of objects] that by (simp add: init_state_def)
  have "filter (\<lambda>i. membership ?s ! i \<noteq> membership ?p ! i) [0..<numObjs] = [0..<numObjs]"
    by (rule filter_True) (simp add: m)
  then have c: "changed (membership ?s) (membership ?p) numObjs = numObjs"
    unfolding changed_def by simp
  show "changed (membership ?s) (membership ?t) numObjs = numObjs" unfolding mt by (rule c)
  show "delta ?p = real (min numObjs 16777216)"
    using pass_state_props(6) [OF wfs K, of objects] unfolding c .
  show "delta ?t = fl32 (real (min numObjs 16777216) / fl32 (real numObjs))"
    using iteration_props(4) [OF wfs K, of objects] unfolding t [symmetric] mt c .
qed

subsection \<open>The run on the twenty-five objects\<close>

text \<open>
  After the second pass \<^verbatim>\<open>delta\<close> is the float nearest to 1/25, which is the threshold
  \<^verbatim>\<open>0.04f\<close> itself, so the loop stops after two passes; the exact quotient 1/25 is
  above the threshold.
\<close>

lemma edge_run:
  "wf_input edge_objects 1 25 2 edge_clusters \<and>
   membership (run_state edge_objects 1 25 2 edge_clusters 1) ! 11 = 0 \<and>
   membership (run_state edge_objects 1 25 2 edge_clusters 2) ! 11 = 1 \<and>
   delta (run_state edge_objects 1 25 2 edge_clusters 2) = edge_threshold \<and>
   edge_threshold < 1 / 25 \<and>
   passes_run edge_objects 1 25 2 edge_threshold edge_clusters = 2"
  by code_simp

subsection \<open>The run on \<open>2\<^sup>2\<^sup>5\<close> objects\<close>

lemma replicate_input_wf:
  "0 < n \<Longrightarrow> wf_input (replicate n [0]) 1 n 1 [[0]]"
  by (simp add: wf_input_def list_all_length)

lemma big_input_wf: "wf_input big_objects 1 big_numObjs 1 big_clusters"
  unfolding big_objects_def big_clusters_def
  by (rule replicate_input_wf) (simp add: big_numObjs_def)

lemma fl32_big_real: "fl32 33554432 = 33554432"
  by code_simp

lemma fl32_big: "fl32 (real big_numObjs) = 33554432"
  using fl32_big_real by (simp add: big_numObjs_def)

lemma fl32_half: "fl32 (16777216 / 33554432) = 1 / 2"
  by code_simp

subsection \<open>The run on the seven objects\<close>

lemma cap_cycle_step:
  "map (iteration 2 1 7 cap_objects) cap_cycle = tl cap_cycle @ [cap_cycle ! 2]"
  by code_simp

lemma cap_cycle_delta: "list_all (\<lambda>s. 0 < delta s) (tl cap_cycle @ [cap_cycle ! 2])"
  by code_simp

lemma cap_cycle_sub: "set (tl cap_cycle @ [cap_cycle ! 2]) \<subseteq> set cap_cycle"
  by (simp add: cap_cycle_def)

lemma cap_cycle_closed:
  assumes "s \<in> set cap_cycle"
  shows "iteration 2 1 7 cap_objects s \<in> set cap_cycle \<and> 0 < delta (iteration 2 1 7 cap_objects s)"
proof -
  have "iteration 2 1 7 cap_objects s \<in> set (map (iteration 2 1 7 cap_objects) cap_cycle)"
    using assms by simp
  then have "iteration 2 1 7 cap_objects s \<in> set (tl cap_cycle @ [cap_cycle ! 2])"
    unfolding cap_cycle_step .
  then show ?thesis
    using cap_cycle_sub cap_cycle_delta unfolding list_all_iff by blast
qed

lemma cap_init: "init_state 2 1 7 cap_clusters = cap_cycle ! 0"
  by code_simp

section \<open>Facts about the base version\<close>

subsection \<open>The search for the nearest centroid\<close>

lemma euclid_dist_2_sum:
  "euclid_dist_2 numdims coord1 coord2 = (\<Sum>k<numdims. (coord1 ! k - coord2 ! k)\<^sup>2)"
  unfolding euclid_dist_2_def by (induction numdims) (simp_all add: power2_eq_square)

lemma nearest_step_fst:
  "fst (nearest_step numCoords object cl im i) = i \<or> fst (nearest_step numCoords object cl im i) = fst im"
  by (simp add: nearest_step_def Let_def)

lemma nearest_fold_bound:
  "fst im < n \<Longrightarrow> b \<le> n \<Longrightarrow> fst (foldl (nearest_step numCoords object cl) im [a..<b]) < n"
proof (induction b)
  case 0
  then show ?case by simp
next
  case (Suc b)
  show ?case
  proof (cases "a \<le> b")
    case True
    have "fst (foldl (nearest_step numCoords object cl) im [a..<b]) < n" using Suc by simp
    moreover have "b < n" using Suc.prems by simp
    ultimately show ?thesis
      using True nearest_step_fst [of numCoords object cl "foldl (nearest_step numCoords object cl) im [a..<b]" b]
      by auto
  next
    case False
    then show ?thesis using Suc.prems by simp
  qed
qed

lemma find_nearest_cluster_less:
  "0 < numClusters \<Longrightarrow> find_nearest_cluster numClusters numCoords object cl < numClusters"
  unfolding find_nearest_cluster_def by (rule nearest_fold_bound) simp_all

lemma nearest_fold_min:
  fixes d :: "nat \<Rightarrow> real"
  assumes d: "\<And>j. d j = euclid_dist_2 numCoords object (cl ! j)"
  shows "1 \<le> b \<Longrightarrow>
    (case foldl (nearest_step numCoords object cl) (0, d 0) [1..<b] of (idx, m) \<Rightarrow>
       idx < b \<and> m = d idx \<and> (\<forall>j<b. m \<le> d j) \<and> (\<forall>j<idx. m < d j))"
proof (induction b)
  case 0
  then show ?case by simp
next
  case (Suc b)
  show ?case
  proof (cases "b = 0")
    case True
    then show ?thesis by simp
  next
    case False
    then have b: "1 \<le> b" by simp
    obtain idx m where r: "foldl (nearest_step numCoords object cl) (0, d 0) [1..<b] = (idx, m)"
      by (cases "foldl (nearest_step numCoords object cl) (0, d 0) [1..<b]")
    have ih: "idx < b" "m = d idx" "\<And>j. j < b \<Longrightarrow> m \<le> d j" "\<And>j. j < idx \<Longrightarrow> m < d j"
      using Suc.IH [OF b] r by auto
    have step: "foldl (nearest_step numCoords object cl) (0, d 0) [1..<Suc b] =
        (if d b < m then (b, d b) else (idx, m))"
      using b r by (simp add: nearest_step_def Let_def d)
    show ?thesis
    proof (cases "d b < m")
      case True
      have "\<And>j. j < Suc b \<Longrightarrow> d b \<le> d j"
        using True ih(3) by (force simp: less_Suc_eq)
      moreover have "\<And>j. j < b \<Longrightarrow> d b < d j" using True ih(3) by force
      ultimately show ?thesis unfolding step using True by simp
    next
      case False
      then have "\<And>j. j < Suc b \<Longrightarrow> m \<le> d j" using ih(3) by (force simp: less_Suc_eq)
      then show ?thesis unfolding step using False ih by simp
    qed
  qed
qed

lemma find_nearest_cluster_min:
  assumes "0 < numClusters"
  shows "find_nearest_cluster numClusters numCoords object cl < numClusters \<and>
    (\<forall>j<numClusters. euclid_dist_2 numCoords object (cl ! find_nearest_cluster numClusters numCoords object cl)
         \<le> euclid_dist_2 numCoords object (cl ! j)) \<and>
    (\<forall>j<find_nearest_cluster numClusters numCoords object cl.
       euclid_dist_2 numCoords object (cl ! find_nearest_cluster numClusters numCoords object cl)
         < euclid_dist_2 numCoords object (cl ! j))"
proof -
  have "1 \<le> numClusters" using assms by simp
  from nearest_fold_min [where d = "\<lambda>j. euclid_dist_2 numCoords object (cl ! j)", OF refl this]
  show ?thesis unfolding find_nearest_cluster_def by (auto split: prod.splits)
qed

subsection \<open>Member counts of the thread-local discipline\<close>

lemma local_object_sizes:
  "b_newClusterSize (local_object sched numClusters numCoords objects s i) = b_newClusterSize s"
  "b_local_newClusterSize (local_object sched numClusters numCoords objects s i) =
     (b_local_newClusterSize s)
       [sched i := (b_local_newClusterSize s ! sched i)
          [find_nearest_cluster numClusters numCoords (objects ! i) (b_clusters s) :=
             b_local_newClusterSize s ! sched i !
               find_nearest_cluster numClusters numCoords (objects ! i) (b_clusters s) + 1]]"
  by (simp_all add: local_object_def Let_def)

lemma local_object_counts:
  assumes sh: "count_shape nthreads numClusters s" and K: "0 < numClusters" and t: "sched i < nthreads"
  shows "count_shape nthreads numClusters (local_object sched numClusters numCoords objects s i) \<and>
         count_total (local_object sched numClusters numCoords objects s i) = count_total s + 1"
proof -
  let ?idx = "find_nearest_cluster numClusters numCoords (objects ! i) (b_clusters s)"
  have idx: "?idx < numClusters" by (rule find_nearest_cluster_less [OF K])
  have len: "length (b_local_newClusterSize s) = nthreads"
    and rows: "list_all (\<lambda>row. length row = numClusters) (b_local_newClusterSize s)"
    and sz: "length (b_newClusterSize s) = numClusters"
    using sh by (auto simp: count_shape_def)
  have row: "length (b_local_newClusterSize s ! sched i) = numClusters"
    using rows t len by (simp add: list_all_length)
  have "count_shape nthreads numClusters (local_object sched numClusters numCoords objects s i)"
    unfolding count_shape_def local_object_sizes using sz len rows row
    by (auto intro!: list_all_update)
  moreover have "count_total (local_object sched numClusters numCoords objects s i) = count_total s + 1"
    unfolding count_total_def local_object_sizes using t len row idx
    by (simp add: sum_rows_update)
  ultimately show ?thesis by simp
qed

lemma local_fold_counts:
  assumes sh: "count_shape nthreads numClusters s" and K: "0 < numClusters"
    and t: "\<And>i. i < n \<Longrightarrow> sched i < nthreads"
  shows "count_shape nthreads numClusters (foldl (local_object sched numClusters numCoords objects) s [0..<n]) \<and>
         count_total (foldl (local_object sched numClusters numCoords objects) s [0..<n]) = count_total s + int n"
  using t
proof (induction n)
  case 0
  then show ?case using sh by simp
next
  case (Suc n)
  let ?t = "foldl (local_object sched numClusters numCoords objects) s [0..<n]"
  have ih: "count_shape nthreads numClusters ?t" "count_total ?t = count_total s + int n"
    using Suc by auto
  have "sched n < nthreads" using Suc.prems by simp
  from local_object_counts [where sched = sched and i = n and numCoords = numCoords
      and objects = objects, OF ih(1) K this] ih(2)
  show ?case by simp
qed

lemma merge_coord_sizes:
  "b_newClusterSize (foldl (merge_coord numClusters i j) s ks) = b_newClusterSize s \<and>
   b_local_newClusterSize (foldl (merge_coord numClusters i j) s ks) = b_local_newClusterSize s"
  by (induction ks arbitrary: s) (simp_all add: merge_coord_def)

lemma merge_thread_sizes:
  "b_newClusterSize (merge_thread numClusters numCoords i s j) =
     (b_newClusterSize s)[i := b_newClusterSize s ! i + b_local_newClusterSize s ! j ! i]"
  "b_local_newClusterSize (merge_thread numClusters numCoords i s j) =
     (b_local_newClusterSize s)[j := (b_local_newClusterSize s ! j)[i := 0]]"
  by (simp_all add: merge_thread_def merge_coord_sizes)

lemma merge_thread_counts:
  assumes sh: "count_shape nthreads numClusters s" and i: "i < numClusters" and j: "j < nthreads"
  shows "count_shape nthreads numClusters (merge_thread numClusters numCoords i s j) \<and>
         count_total (merge_thread numClusters numCoords i s j) = count_total s"
proof -
  have len: "length (b_local_newClusterSize s) = nthreads"
    and rows: "list_all (\<lambda>row. length row = numClusters) (b_local_newClusterSize s)"
    and sz: "length (b_newClusterSize s) = numClusters"
    using sh by (auto simp: count_shape_def)
  have row: "length (b_local_newClusterSize s ! j) = numClusters"
    using rows j len by (simp add: list_all_length)
  have "count_shape nthreads numClusters (merge_thread numClusters numCoords i s j)"
    unfolding count_shape_def merge_thread_sizes using sz len rows row
    by (auto intro!: list_all_update)
  moreover have "count_total (merge_thread numClusters numCoords i s j) = count_total s"
    unfolding count_total_def merge_thread_sizes using i j len row sz
    by (simp add: sum_rows_update sum_list_update_int)
  ultimately show ?thesis by simp
qed

lemma merge_cluster_fold:
  fixes numCoords :: nat
  assumes sh: "count_shape nthreads numClusters s" and i: "i < numClusters" and m: "m \<le> nthreads"
  defines "t \<equiv> foldl (merge_thread numClusters numCoords i) s [0..<m]"
  shows "count_shape nthreads numClusters t \<and> count_total t = count_total s \<and>
    (\<forall>j<nthreads. \<forall>k<numClusters. b_local_newClusterSize t ! j ! k =
        (if j < m \<and> k = i then 0 else b_local_newClusterSize s ! j ! k))"
  using m unfolding t_def
proof (induction m)
  case 0
  then show ?case using sh by simp
next
  case (Suc m)
  let ?t = "foldl (merge_thread numClusters numCoords i) s [0..<m]"
  have m: "m < nthreads" using Suc.prems by simp
  have ih: "count_shape nthreads numClusters ?t" "count_total ?t = count_total s"
    "\<And>j k. j < nthreads \<Longrightarrow> k < numClusters \<Longrightarrow> b_local_newClusterSize ?t ! j ! k =
        (if j < m \<and> k = i then 0 else b_local_newClusterSize s ! j ! k)"
    using Suc by auto
  define u where "u = merge_thread numClusters numCoords i ?t m"
  have step: "foldl (merge_thread numClusters numCoords i) s [0..<Suc m] = u"
    by (simp add: u_def)
  have u: "count_shape nthreads numClusters u" "count_total u = count_total ?t"
    using merge_thread_counts [OF ih(1) i m, of numCoords] by (simp_all add: u_def)
  have len: "length (b_local_newClusterSize ?t) = nthreads"
    and rows: "list_all (\<lambda>row. length row = numClusters) (b_local_newClusterSize ?t)"
    using ih(1) by (auto simp: count_shape_def)
  have row: "length (b_local_newClusterSize ?t ! m) = numClusters"
    using rows m len by (simp add: list_all_length)
  have l: "\<And>j k. j < nthreads \<Longrightarrow> k < numClusters \<Longrightarrow> b_local_newClusterSize u ! j ! k =
        (if j < Suc m \<and> k = i then 0 else b_local_newClusterSize s ! j ! k)"
    unfolding u_def merge_thread_sizes using ih(3) len row m i
    by (auto simp: nth_list_update less_Suc_eq)
  show ?case unfolding step using u ih(2) l by simp
qed

lemma merge_local_fold:
  fixes numCoords :: nat
  assumes sh: "count_shape nthreads numClusters s" and m: "m \<le> numClusters"
  defines "t \<equiv> foldl (merge_cluster nthreads numClusters numCoords) s [0..<m]"
  shows "count_shape nthreads numClusters t \<and> count_total t = count_total s \<and>
    (\<forall>j<nthreads. \<forall>k<numClusters. b_local_newClusterSize t ! j ! k =
        (if k < m then 0 else b_local_newClusterSize s ! j ! k))"
  using m unfolding t_def
proof (induction m)
  case 0
  then show ?case using sh by simp
next
  case (Suc m)
  let ?t = "foldl (merge_cluster nthreads numClusters numCoords) s [0..<m]"
  have m: "m < numClusters" using Suc.prems by simp
  have ih: "count_shape nthreads numClusters ?t" "count_total ?t = count_total s"
    "\<And>j k. j < nthreads \<Longrightarrow> k < numClusters \<Longrightarrow> b_local_newClusterSize ?t ! j ! k =
        (if k < m then 0 else b_local_newClusterSize s ! j ! k)"
    using Suc by auto
  define u where "u = merge_cluster nthreads numClusters numCoords ?t m"
  have step: "foldl (merge_cluster nthreads numClusters numCoords) s [0..<Suc m] = u"
    by (simp add: u_def)
  have u: "count_shape nthreads numClusters u" "count_total u = count_total ?t"
    "\<And>j k. j < nthreads \<Longrightarrow> k < numClusters \<Longrightarrow> b_local_newClusterSize u ! j ! k =
        (if j < nthreads \<and> k = m then 0 else b_local_newClusterSize ?t ! j ! k)"
    using merge_cluster_fold [OF ih(1) m order_refl, of numCoords]
    unfolding u_def merge_cluster_def by auto
  have l: "\<And>j k. j < nthreads \<Longrightarrow> k < numClusters \<Longrightarrow> b_local_newClusterSize u ! j ! k =
        (if k < Suc m then 0 else b_local_newClusterSize s ! j ! k)"
    using u(3) ih(3) by (auto simp: less_Suc_eq)
  show ?case unfolding step using u(1,2) ih(2) l by simp
qed

lemma merge_local_counts:
  fixes numCoords :: nat
  assumes sh: "count_shape nthreads numClusters s"
  defines "t \<equiv> merge_local nthreads numClusters numCoords s"
  shows "count_shape nthreads numClusters t"
    "b_local_newClusterSize t = replicate nthreads (replicate numClusters 0)"
    "sum_list (b_newClusterSize t) = count_total s"
proof -
  note f = merge_local_fold [OF sh order_refl, of numCoords, folded merge_local_def t_def]
  show sh': "count_shape nthreads numClusters t" using f by simp
  show z: "b_local_newClusterSize t = replicate nthreads (replicate numClusters 0)"
    by (rule replicate_rows_eq) (use f sh' in \<open>auto simp: count_shape_def\<close>)
  have "count_total t = count_total s" using f by simp
  then show "sum_list (b_newClusterSize t) = count_total s"
    unfolding count_total_def [of t] z by (simp add: sum_list_replicate)
qed

lemma b_average_coord_sizes:
  "b_newClusterSize (foldl (b_average_coord numClusters i) s js) = b_newClusterSize s \<and>
   b_local_newClusterSize (foldl (b_average_coord numClusters i) s js) = b_local_newClusterSize s"
  by (induction js arbitrary: s) (simp_all add: b_average_coord_def)

lemma b_average_cluster_sizes:
  "b_newClusterSize (b_average_cluster numClusters numCoords s i) = (b_newClusterSize s)[i := 0]"
  "b_local_newClusterSize (b_average_cluster numClusters numCoords s i) = b_local_newClusterSize s"
  by (simp_all add: b_average_cluster_def Let_def b_average_coord_sizes)

lemma b_update_fold:
  "m \<le> length (b_newClusterSize s) \<Longrightarrow>
   length (b_newClusterSize (foldl (b_average_cluster numClusters numCoords) s [0..<m])) =
     length (b_newClusterSize s) \<and>
   (\<forall>k<length (b_newClusterSize s).
      b_newClusterSize (foldl (b_average_cluster numClusters numCoords) s [0..<m]) ! k =
        (if k < m then 0 else b_newClusterSize s ! k)) \<and>
   b_local_newClusterSize (foldl (b_average_cluster numClusters numCoords) s [0..<m]) =
     b_local_newClusterSize s"
proof (induction m)
  case 0
  then show ?case by simp
next
  case (Suc m)
  then show ?case
    by (auto simp: b_average_cluster_sizes nth_list_update less_Suc_eq)
qed

lemma b_update_sizes:
  assumes "length (b_newClusterSize s) = numClusters"
  shows "b_newClusterSize (b_update_centroids numClusters numCoords s) = replicate numClusters 0"
    and "b_local_newClusterSize (b_update_centroids numClusters numCoords s) = b_local_newClusterSize s"
proof -
  note f = b_update_fold [of numClusters s numClusters numCoords, folded b_update_centroids_def]
  show "b_newClusterSize (b_update_centroids numClusters numCoords s) = replicate numClusters 0"
    by (rule replicate_eq_nth) (use f assms in auto)
  show "b_local_newClusterSize (b_update_centroids numClusters numCoords s) = b_local_newClusterSize s"
    using f assms by simp
qed

lemma local_pass_counts:
  fixes objects :: "real list list" and numCoords :: nat
  assumes z: "b_newClusterSize s = replicate numClusters 0"
      "b_local_newClusterSize s = replicate nthreads (replicate numClusters 0)"
    and K: "0 < numClusters" and sched: "wf_sched nthreads sched numObjs"
  defines "t \<equiv> local_pass nthreads sched numClusters numCoords numObjs objects (s\<lparr>b_delta := 0\<rparr>)"
  shows "sum_list (b_newClusterSize t) = int numObjs"
    and "length (b_newClusterSize t) = numClusters"
    and "b_local_newClusterSize t = replicate nthreads (replicate numClusters 0)"
proof -
  let ?s0 = "s\<lparr>b_delta := 0\<rparr>"
  have sh: "count_shape nthreads numClusters ?s0"
    using z by (simp add: count_shape_def list_all_length)
  have tot: "count_total ?s0 = 0"
    using z by (simp add: count_total_def sum_list_replicate)
  have t: "\<And>i. i < numObjs \<Longrightarrow> sched i < nthreads"
    using sched by (simp add: wf_sched_def list_all_iff)
  note f = local_fold_counts [where sched = sched and numCoords = numCoords and objects = objects,
      OF sh K t, of numObjs, simplified]
  note m = merge_local_counts [where numCoords = numCoords, OF f [THEN conjunct1],
      folded local_pass_def t_def]
  show "sum_list (b_newClusterSize t) = int numObjs" using m(3) f tot by simp
  show "length (b_newClusterSize t) = numClusters" using m(1) by (simp add: count_shape_def)
  show "b_local_newClusterSize t = replicate nthreads (replicate numClusters 0)" by (rule m(2))
qed

lemma base_run_state_counts:
  assumes K: "0 < numClusters" and sched: "wf_sched nthreads sched numObjs"
  shows "b_newClusterSize (base_run_state 0 nthreads sched objects numCoords numObjs numClusters cl n) =
           replicate numClusters 0 \<and>
         b_local_newClusterSize (base_run_state 0 nthreads sched objects numCoords numObjs numClusters cl n) =
           replicate nthreads (replicate numClusters 0)"
proof (induction n)
  case 0
  show ?case by (simp add: base_init_def)
next
  case (Suc n)
  let ?s = "base_run_state 0 nthreads sched objects numCoords numObjs numClusters cl n"
  let ?p = "local_pass nthreads sched numClusters numCoords numObjs objects (?s\<lparr>b_delta := 0\<rparr>)"
  note p = local_pass_counts [where numCoords = numCoords and objects = objects,
      OF Suc [THEN conjunct1] Suc [THEN conjunct2] K sched]
  note u = b_update_sizes [OF p(2), of numCoords]
  show ?case using u p(3) by (simp add: base_iteration_def Let_def)
qed

subsection \<open>Membership array of the thread-local discipline\<close>

lemma local_object_membership:
  "b_membership (local_object sched numClusters numCoords objects s i) =
     (b_membership s)[i := int (find_nearest_cluster numClusters numCoords (objects ! i) (b_clusters s))]"
  "b_clusters (local_object sched numClusters numCoords objects s i) = b_clusters s"
  by (simp_all add: local_object_def Let_def)

lemma local_fold_membership:
  fixes objects :: "real list list"
  assumes K: "0 < numClusters"
  shows "n \<le> length (b_membership s) \<Longrightarrow>
    length (b_membership (foldl (local_object sched numClusters numCoords objects) s [0..<n])) =
      length (b_membership s) \<and>
    (\<forall>i<n. 0 \<le> b_membership (foldl (local_object sched numClusters numCoords objects) s [0..<n]) ! i \<and>
           b_membership (foldl (local_object sched numClusters numCoords objects) s [0..<n]) ! i
             < int numClusters)"
proof (induction n)
  case 0
  then show ?case by simp
next
  case (Suc n)
  let ?t = "foldl (local_object sched numClusters numCoords objects) s [0..<n]"
  have ih: "length (b_membership ?t) = length (b_membership s)"
    "\<And>i. i < n \<Longrightarrow> 0 \<le> b_membership ?t ! i \<and> b_membership ?t ! i < int numClusters"
    using Suc by auto
  have n: "n < length (b_membership ?t)" using Suc.prems ih(1) by simp
  have idx: "find_nearest_cluster numClusters numCoords (objects ! n) (b_clusters ?t) < numClusters"
    by (rule find_nearest_cluster_less [OF K])
  show ?case
    using ih n idx by (auto simp: local_object_membership nth_list_update less_Suc_eq)
qed

lemma merge_coord_membership:
  "b_membership (foldl (merge_coord numClusters i j) s ks) = b_membership s"
  by (induction ks arbitrary: s) (simp_all add: merge_coord_def)

lemma merge_thread_membership:
  "b_membership (foldl (merge_thread numClusters numCoords i) s js) = b_membership s"
  by (induction js arbitrary: s) (simp_all add: merge_thread_def merge_coord_membership)

lemma merge_local_membership:
  "b_membership (merge_local nthreads numClusters numCoords s) = b_membership s"
proof -
  have "b_membership (foldl (merge_cluster nthreads numClusters numCoords) s ks) = b_membership s" for ks
    by (induction ks arbitrary: s) (simp_all add: merge_cluster_def merge_thread_membership)
  then show ?thesis by (simp add: merge_local_def)
qed

lemma b_average_coord_membership:
  "b_membership (foldl (b_average_coord numClusters i) s js) = b_membership s"
  by (induction js arbitrary: s) (simp_all add: b_average_coord_def)

lemma b_update_membership:
  "b_membership (b_update_centroids numClusters numCoords s) = b_membership s"
proof -
  have "b_membership (foldl (b_average_cluster numClusters numCoords) s ks) = b_membership s" for ks
    by (induction ks arbitrary: s)
       (simp_all add: b_average_cluster_def Let_def b_average_coord_membership)
  then show ?thesis by (simp add: b_update_centroids_def)
qed

lemma local_pass_membership:
  fixes objects :: "real list list" and numCoords nthreads :: nat and sched :: "nat \<Rightarrow> nat"
  assumes K: "0 < numClusters" and len: "length (b_membership s) = numObjs" and i: "i < numObjs"
  defines "t \<equiv> local_pass nthreads sched numClusters numCoords numObjs objects (s\<lparr>b_delta := 0\<rparr>)"
  shows "length (b_membership t) = numObjs \<and> 0 \<le> b_membership t ! i \<and>
         b_membership t ! i < int numClusters"
  using local_fold_membership [OF K, of numObjs "s\<lparr>b_delta := 0\<rparr>" sched numCoords objects] len i
  by (simp add: t_def local_pass_def merge_local_membership)

lemma base_run_state_membership:
  assumes K: "0 < numClusters"
  shows "length (b_membership (base_run_state 0 nthreads sched objects numCoords numObjs numClusters cl n)) = numObjs"
proof (induction n)
  case 0
  show ?case by (simp add: base_init_def)
next
  case (Suc n)
  have "length (b_membership (local_pass nthreads sched numClusters numCoords numObjs objects
      (base_run_state 0 nthreads sched objects numCoords numObjs numClusters cl n\<lparr>b_delta := 0\<rparr>))) = numObjs"
    using local_fold_membership [OF K, of numObjs
        "base_run_state 0 nthreads sched objects numCoords numObjs numClusters cl n\<lparr>b_delta := 0\<rparr>"
        sched numCoords objects] Suc
    by (simp add: local_pass_def merge_local_membership)
  then show ?case by (simp add: base_iteration_def Let_def b_update_membership)
qed

section \<open>The claims\<close>

text \<open>
  Claim C1. The nearest-centroid search returns the index of the centroid with the least
  squared Euclidean distance, the lowest such index on ties.

  \<^verbatim>\<open>find_nearest_cluster\<close> does (\<open>find_nearest_cluster_min\<close> above). The scan of the
  improved version does whenever some squared distance is below \<^verbatim>\<open>INT_MAX\<close>
  (\<open>nearest_index_min\<close> above), but it starts from \<^verbatim>\<open>min_dist = INT_MAX\<close> instead
  of the distance to centroid 0: when every squared distance is at least \<^verbatim>\<open>INT_MAX\<close>
  no centroid is selected and the index stays 0. For the object at 0 and the centroids
  at 100000 and 50000 the result is 0 although centroid 1 is strictly nearer.
\<close>

theorem nearest_index_beyond_INT_MAX:
  "nearest_index 2 1 far_object far_clusters = 0 \<and>
   sq_dist 1 far_object far_clusters 1 < sq_dist 1 far_object far_clusters 0"
  by code_simp

text \<open>
  Claim C2. The loop stops within 500 iterations, at the cap of 500 when the threshold
  is never met.

  The loop is bounded, but by 501 passes (\<open>passes_run_bounds\<close> above):
  \<^verbatim>\<open>loop++ < 500\<close> is tested after the body has run, so the body runs once more after
  \<^verbatim>\<open>loop\<close> has reached 500. On the seven objects of \<open>cap_objects\<close> (a well-formed
  input: two clusters, seven objects, threshold 0) the threshold is never met and the
  body runs 501 times.
\<close>

theorem cap_run_501:
  "wf_input cap_objects 1 7 2 cap_clusters \<and> passes_run cap_objects 1 7 2 0 cap_clusters = 501"
proof -
  have "init_state 2 1 7 cap_clusters \<in> set cap_cycle"
    unfolding cap_init by (simp add: cap_cycle_def)
  then have "fst (snd (kmeans_loop 2 1 7 cap_objects 0 0 0 (init_state 2 1 7 cap_clusters))) + 0 = 0 + 501"
    using kmeans_loop_cap [where I = "\<lambda>s. s \<in> set cap_cycle" and numClusters = 2 and numCoords = 1
        and numObjs = 7 and objects = cap_objects and threshold = 0 and loop = 0 and passes = 0
        and s = "init_state 2 1 7 cap_clusters"] cap_cycle_closed
    by simp
  moreover have "wf_input cap_objects 1 7 2 cap_clusters" by code_simp
  ultimately show ?thesis by (simp add: passes_run_def kmeans_run_def)
qed

text \<open>
  Claim C3. A cluster that the assignment pass of an iteration gives no member or one
  member keeps every coordinate of its centroid through the centroid update of that
  iteration.

  The improved version does, in every iteration (\<open>small_cluster_keeps_centroid\<close> above).
  The thread-local branch of the base version does not. Its merge fills
  \<^verbatim>\<open>newClusters[cluster][coord]\<close> (line 254) and \<^verbatim>\<open>find_nearest_cluster\<close> reads
  \<^verbatim>\<open>clusters[cluster]\<close> (line 231), but the update tests \<^verbatim>\<open>newClusterSize[i]\<close> and
  then reads \<^verbatim>\<open>newClusters[j][i]\<close> and writes \<^verbatim>\<open>clusters[j][i]\<close>, \<open>i\<close> running over the
  clusters and \<open>j\<close> over the coordinates (lines 263-267). On the three objects of
  \<open>lay_objects\<close>, one thread, the first pass gives cluster 1 the one object
  \<open>(10, 10)\<close>, which is also its centroid. The update for \<open>i = 0\<close> (two members) writes
  \<^verbatim>\<open>clusters[1][0] = newClusters[1][0] / 2\<close>, that is 10 / 2: the centroid of cluster 1
  moves from \<open>(10, 10)\<close> to \<open>(5, 10)\<close>.
\<close>

theorem one_member_centroid_moves:
  "member_count (b_membership (base_run_state 0 1 (\<lambda>i. 0) lay_objects 2 3 2 lay_clusters 1)) 3 1 = 1 \<and>
   b_clusters (base_run_state 0 1 (\<lambda>i. 0) lay_objects 2 3 2 lay_clusters 0) ! 1 = [10, 10] \<and>
   b_clusters (base_run_state 0 1 (\<lambda>i. 0) lay_objects 2 3 2 lay_clusters 1) ! 1 = [5, 10]"
  by code_simp

text \<open>
  Claim C4. A cluster that the assignment pass of an iteration gives more than one member
  gets, in every coordinate, the sum of that coordinate over its members divided by the
  number of members; after the update all accumulators (sums and counts) are zero.

  The improved version accumulates and averages with the same indexing
  (\<open>large_cluster_gets_mean\<close> above). In the thread-local branch of the base version the
  update reads the sums and writes the centroids with the two indices exchanged (see
  Claim C3). On the three objects of \<open>lay_objects\<close>, one thread, the first pass gives
  cluster 0 the objects \<open>(0, 0)\<close> and \<open>(1, 4)\<close>, whose mean is \<open>(1/2, 2)\<close>. The update
  for \<open>i = 0\<close> writes \<^verbatim>\<open>clusters[0][0] = 1 / 2\<close> and \<^verbatim>\<open>clusters[1][0] = 10 / 2\<close>; the
  update for \<open>i = 1\<close> (one member) writes nothing, so \<^verbatim>\<open>clusters[0][1]\<close> stays 0.
  The centroid of cluster 0 becomes \<open>(1/2, 0)\<close>, and the run (threshold 0) ends with
  these centroids.
\<close>

theorem two_member_centroid_not_mean:
  "members (b_membership (base_run_state 0 1 (\<lambda>i. 0) lay_objects 2 3 2 lay_clusters 1)) 3 0 = [0, 2] \<and>
   map (\<lambda>j. coord_sum lay_objects [0, 2] j / 2) [0, 1] = [1 / 2, 2] \<and>
   b_clusters (base_run_state 0 1 (\<lambda>i. 0) lay_objects 2 3 2 lay_clusters 1) ! 0 = [1 / 2, 0] \<and>
   out_clusters (omp_kmeans_base 1 (\<lambda>i. 0) 0 lay_objects 2 3 2 0 lay_clusters) = [[1 / 2, 0], [5, 10]]"
  by code_simp

text \<open>
  Claim C5. In every iteration \<^verbatim>\<open>delta\<close> is reset to zero, is incremented by exactly 1
  for each object whose newly computed index differs from its membership entry, and the
  loop stops as converged precisely when \<^verbatim>\<open>delta\<close> divided by \<^verbatim>\<open>numObjs\<close> is at most
  the threshold.

  \<^verbatim>\<open>delta\<close> is a float. With at most \<open>2\<^sup>2\<^sup>4\<close> objects the counter is exact and the
  claim holds, the quotient being the float quotient (\<open>delta_counts_and_exit\<close> and
  \<open>edge_run\<close> above). A float cannot count further: \<open>2\<^sup>2\<^sup>4 + 1\<close> is stored as
  \<open>2\<^sup>2\<^sup>4\<close>. On \<open>2\<^sup>2\<^sup>5\<close> objects (a well-formed input), run on one thread, the first
  pass changes every membership entry from -1 to 0, yet \<^verbatim>\<open>delta\<close> ends the pass as
  \<open>2\<^sup>2\<^sup>4\<close>; divided by \<^verbatim>\<open>numObjs\<close> it is 1/2, and with the threshold 3/4 the loop
  stops after this pass although all objects have changed their cluster.
\<close>

theorem delta_stops_at_16777216:
  "wf_input big_objects 1 big_numObjs 1 big_clusters \<and>
   changed (membership (init_state 1 1 big_numObjs big_clusters))
     (membership (run_state big_objects 1 big_numObjs 1 big_clusters 1)) big_numObjs = 33554432 \<and>
   delta (pass_state 1 1 big_numObjs big_objects (init_state 1 1 big_numObjs big_clusters)) = 16777216 \<and>
   delta (run_state big_objects 1 big_numObjs 1 big_clusters 1) = 1 / 2 \<and>
   passes_run big_objects 1 big_numObjs 1 (3 / 4) big_clusters = 1"
proof -
  note f = first_pass_changes_all [OF big_input_wf]
  have mn: "min big_numObjs 16777216 = 16777216" by (simp add: big_numObjs_def)
  have c: "changed (membership (init_state 1 1 big_numObjs big_clusters))
     (membership (run_state big_objects 1 big_numObjs 1 big_clusters 1)) big_numObjs = 33554432"
    by (rule trans [OF f(1) big_numObjs_def])
  have p: "delta (pass_state 1 1 big_numObjs big_objects (init_state 1 1 big_numObjs big_clusters)) = 16777216"
    using f(2) unfolding mn by simp
  have d: "delta (run_state big_objects 1 big_numObjs 1 big_clusters 1) = 1 / 2"
    using f(3) unfolding mn fl32_big using fl32_half by simp
  have "delta (iteration 1 1 big_numObjs big_objects (init_state 1 1 big_numObjs big_clusters)) = 1 / 2"
    using d by simp
  then have "passes_run big_objects 1 big_numObjs 1 (3 / 4) big_clusters = 1"
    unfolding passes_run_def kmeans_run_def by (subst kmeans_loop.simps) (simp add: Let_def)
  then show ?thesis using big_input_wf c p d by simp
qed

text \<open>
  Claim C6. After every assignment pass of a run on a well-formed input, the membership
  array has one entry per object and every entry is a cluster index in
  \<open>[0, numClusters)\<close>: in the improved version (the pass of iteration \<open>n + 1\<close> starts
  from \<open>run_state \<dots> n\<close>) and in the thread-local pass of the base version.
\<close>

theorem membership_in_range:
  assumes "wf_input objects numCoords numObjs numClusters cl" and "i < numObjs"
  shows "length (membership (pass_state numClusters numCoords numObjs objects
            (run_state objects numCoords numObjs numClusters cl n))) = numObjs \<and>
         0 \<le> membership (pass_state numClusters numCoords numObjs objects
            (run_state objects numCoords numObjs numClusters cl n)) ! i \<and>
         membership (pass_state numClusters numCoords numObjs objects
            (run_state objects numCoords numObjs numClusters cl n)) ! i < int numClusters \<and>
         length (b_membership (local_pass nthreads sched numClusters numCoords numObjs objects
            (base_run_state 0 nthreads sched objects numCoords numObjs numClusters cl n\<lparr>b_delta := 0\<rparr>))) = numObjs \<and>
         0 \<le> b_membership (local_pass nthreads sched numClusters numCoords numObjs objects
            (base_run_state 0 nthreads sched objects numCoords numObjs numClusters cl n\<lparr>b_delta := 0\<rparr>)) ! i \<and>
         b_membership (local_pass nthreads sched numClusters numCoords numObjs objects
            (base_run_state 0 nthreads sched objects numCoords numObjs numClusters cl n\<lparr>b_delta := 0\<rparr>)) ! i
           < int numClusters"
proof -
  let ?s = "run_state objects numCoords numObjs numClusters cl n"
  let ?b = "base_run_state 0 nthreads sched objects numCoords numObjs numClusters cl n"
  have K: "0 < numClusters" using assms(1) by (simp add: wf_input_def)
  have wf: "wf_state numClusters numCoords numObjs ?s" using run_state_inv [OF assms(1)] by simp
  note p = pass_state_props [OF wf K, where objects = objects]
  have "length (membership (pass_state numClusters numCoords numObjs objects ?s)) = numObjs"
    using p(1) by (simp add: wf_state_def)
  moreover have "membership (pass_state numClusters numCoords numObjs objects ?s) ! i =
      int (nearest_index numClusters numCoords (objects ! i) (clusters ?s))"
    by (rule p(3) [OF assms(2)])
  moreover have "nearest_index numClusters numCoords (objects ! i) (clusters ?s) < numClusters"
    by (rule nearest_index_less [OF K])
  moreover have "length (b_membership ?b) = numObjs"
    by (rule base_run_state_membership [OF K])
  note local_pass_membership [OF K this assms(2), of nthreads sched numCoords objects]
  ultimately show ?thesis by simp
qed

theorem membership_in_range_witness:
  "wf_input sq_objects 2 2 2 sq_objects \<and> (1::nat) < 2 \<and>
   length (membership (pass_state 2 2 2 sq_objects (run_state sq_objects 2 2 2 sq_objects 1))) = 2 \<and>
   0 \<le> membership (pass_state 2 2 2 sq_objects (run_state sq_objects 2 2 2 sq_objects 1)) ! 1 \<and>
   membership (pass_state 2 2 2 sq_objects (run_state sq_objects 2 2 2 sq_objects 1)) ! 1 < int 2 \<and>
   length (b_membership (local_pass 1 (\<lambda>i. 0) 2 2 2 sq_objects
      (base_run_state 0 1 (\<lambda>i. 0) sq_objects 2 2 2 sq_objects 1\<lparr>b_delta := 0\<rparr>))) = 2 \<and>
   0 \<le> b_membership (local_pass 1 (\<lambda>i. 0) 2 2 2 sq_objects
      (base_run_state 0 1 (\<lambda>i. 0) sq_objects 2 2 2 sq_objects 1\<lparr>b_delta := 0\<rparr>)) ! 1 \<and>
   b_membership (local_pass 1 (\<lambda>i. 0) 2 2 2 sq_objects
      (base_run_state 0 1 (\<lambda>i. 0) sq_objects 2 2 2 sq_objects 1\<lparr>b_delta := 0\<rparr>)) ! 1 < int 2"
proof -
  have h: "wf_input sq_objects 2 2 2 sq_objects" by code_simp
  show ?thesis using h membership_in_range [OF h, of 1 1 1 "\<lambda>i. 0"] by simp
qed

text \<open>
  Claim C7. After every completed assignment pass the member counts of all clusters add up
  to \<^verbatim>\<open>numObjs\<close>: in the improved version, where every object increments
  \<^verbatim>\<open>newClusterSize[index]\<close>, and in the thread-local discipline of the base version,
  after the serial merge of the per-thread counts into \<^verbatim>\<open>newClusterSize\<close> (every
  iteration of the loop over the objects being run by one of the \<open>nthreads\<close> threads).
\<close>

theorem counts_sum_to_numObjs:
  assumes "wf_input objects numCoords numObjs numClusters cl"
    and "wf_sched nthreads sched numObjs"
  shows "sum_list (newClusterSize (pass_state numClusters numCoords numObjs objects
            (run_state objects numCoords numObjs numClusters cl n))) = int numObjs \<and>
         sum_list (b_newClusterSize (local_pass nthreads sched numClusters numCoords numObjs objects
            (base_run_state 0 nthreads sched objects numCoords numObjs numClusters cl n\<lparr>b_delta := 0\<rparr>))) =
           int numObjs"
proof
  let ?s = "run_state objects numCoords numObjs numClusters cl n"
  have K: "0 < numClusters" using assms(1) by (simp add: wf_input_def)
  have wf: "wf_state numClusters numCoords numObjs (?s\<lparr>delta := 0\<rparr>)"
    and z: "newClusterSize ?s = replicate numClusters 0"
    using run_state_inv [OF assms(1), of n] by (simp_all add: zero_acc_def)
  show "sum_list (newClusterSize (pass_state numClusters numCoords numObjs objects ?s)) = int numObjs"
    unfolding pass_state_def assignment_pass_def
    using pass_state_sum [OF wf K order_refl, of objects] z by (simp add: sum_list_replicate)
  note b = base_run_state_counts [OF K assms(2), of objects numCoords cl n]
  show "sum_list (b_newClusterSize (local_pass nthreads sched numClusters numCoords numObjs objects
            (base_run_state 0 nthreads sched objects numCoords numObjs numClusters cl n\<lparr>b_delta := 0\<rparr>))) =
           int numObjs"
    by (rule local_pass_counts(1) [OF b [THEN conjunct1] b [THEN conjunct2] K assms(2)])
qed

theorem counts_sum_to_numObjs_witness:
  "wf_input sq_objects 2 2 2 sq_objects \<and> wf_sched 1 (\<lambda>i. 0) 2 \<and>
   sum_list (newClusterSize (pass_state 2 2 2 sq_objects (run_state sq_objects 2 2 2 sq_objects 1))) = int 2 \<and>
   sum_list (b_newClusterSize (local_pass 1 (\<lambda>i. 0) 2 2 2 sq_objects
      (base_run_state 0 1 (\<lambda>i. 0) sq_objects 2 2 2 sq_objects 1\<lparr>b_delta := 0\<rparr>))) = int 2"
proof -
  have h: "wf_input sq_objects 2 2 2 sq_objects" by code_simp
  have t: "wf_sched 1 (\<lambda>i. 0) 2" by code_simp
  show ?thesis using h t counts_sum_to_numObjs [OF h t, of 1] by simp
qed

text \<open>
  Claim C8. With the same input and thread count, the atomic and the thread-local
  discipline end with the same membership array.

  Only the base version has the two disciplines. Run with one thread on the two objects
  of \<open>sq_objects\<close> (which are also the initial centroids), threshold 0: with
  \<^verbatim>\<open>is_perform_atomic = 1\<close> both objects end in cluster 0, with
  \<^verbatim>\<open>is_perform_atomic = 0\<close> each object ends in its own cluster. The atomic branch
  computes its distances from \<^verbatim>\<open>int current_object_coord\<close>, the coordinate with its
  fraction dropped, so it sees both objects at \<open>(0, 0)\<close>.
\<close>

theorem disciplines_differ:
  "out_membership (omp_kmeans_base 1 (\<lambda>i. 0) 1 sq_objects 2 2 2 0 sq_objects) = [0, 0] \<and>
   out_membership (omp_kmeans_base 1 (\<lambda>i. 0) 0 sq_objects 2 2 2 0 sq_objects) = [0, 1]"
  by code_simp

text \<open>
  Claim C9, as amended. On every run the improved \<^verbatim>\<open>omp_kmeans\<close> returns the constant
  1; what it hands back besides are the membership array and the centroid array of the
  state in which the loop ended. The number of passes is not among them.
\<close>

theorem omp_kmeans_output:
  "ret (omp_kmeans a objects numCoords numObjs numClusters threshold cl) = 1 \<and>
   out_membership (omp_kmeans a objects numCoords numObjs numClusters threshold cl) =
     membership (run_state objects numCoords numObjs numClusters cl
                   (passes_run objects numCoords numObjs numClusters threshold cl)) \<and>
   out_clusters (omp_kmeans a objects numCoords numObjs numClusters threshold cl) =
     clusters (run_state objects numCoords numObjs numClusters cl
                 (passes_run objects numCoords numObjs numClusters threshold cl))"
  using kmeans_run_state [of objects numCoords numObjs numClusters threshold cl]
  by (auto simp: omp_kmeans_def split: prod.splits)

text \<open>
  Claim C9 as stated (the output includes the number of iterations performed) fails: on
  one object that is its own centroid, a run with threshold 0 makes two passes and a run
  with threshold 1 makes one pass, and both runs give the very same output (return value
  1, the same membership array, the same centroid array).
\<close>

theorem iteration_count_not_in_output:
  "omp_kmeans 0 one_object 1 1 1 0 one_object = omp_kmeans 0 one_object 1 1 1 1 one_object \<and>
   passes_run one_object 1 1 1 0 one_object = 2 \<and>
   passes_run one_object 1 1 1 1 one_object = 1 \<and>
   ret (omp_kmeans 0 one_object 1 1 1 0 one_object) = 1"
  by code_simp

text \<open>
  Claim C10. The improved \<^verbatim>\<open>omp_kmeans\<close> never reads \<^verbatim>\<open>is_perform_atomic\<close>: two
  runs that differ only in that argument give the same return value, membership array
  and centroid array.
\<close>

theorem is_perform_atomic_ignored:
  "omp_kmeans a objects numCoords numObjs numClusters threshold cl =
   omp_kmeans b objects numCoords numObjs numClusters threshold cl"
  by (simp add: omp_kmeans_def)

end
